theory Spec2Isabelle
  imports Complex_Main "HOL-Library.Log_Nat"
begin

section \<open>The appraisal route of the NFT appraisal oracle\<close>

text \<open>
  The program is one Express route, \<^verbatim>\<open>routes/appraisal.js\<close>:
  \<^verbatim>\<open>
  router.post('/', (req, res) => {
    const { nftContent } = req.body;
    if (!nftContent) {
      return res.status(400).json({ error: "NFT content required" });
    }
    const mockScore = (Math.random() * 3 + 7).toFixed(1);
    res.json({
      scores: Array(9).fill(null).map(() => Math.floor(Math.random() * 4) + 7),
      overall: mockScore,
      reason: "Automated local appraisal complete"
    });
  });
  \<close>
  It is embedded below as a function from the parsed request body and the state of the
  random source to the response and the new state of the random source. The early
  \<^verbatim>\<open>return\<close> of the rejection is the first branch of the function; Numbers are binary64
  values with their rounding; \<^verbatim>\<open>Math.random\<close> is the only state the handler touches.
\<close>

subsection \<open>JavaScript values\<close>

text \<open>
  A Number is an IEEE 754 binary64 value: NaN, an infinity, or a finite value, which is a
  rational. The two zeros are not told apart (both are falsy, and nothing here divides).
\<close>

datatype number = NaN | PosInfinity | NegInfinity | Finite rat

text \<open>
  The values a JSON body parser can put into \<^verbatim>\<open>req.body\<close>, and \<^verbatim>\<open>undefined\<close>, which reading
  a missing property gives. An object literal is the list of its properties in the order
  they are written.
\<close>

datatype jsval =
    JUndefined
  | JNull
  | JBool bool
  | JNum number
  | JStr string
  | JArr "jsval list"
  | JObj "(string \<times> jsval) list"

text \<open>The abstract operation ToBoolean of ECMAScript, which \<^verbatim>\<open>!nftContent\<close> negates.\<close>

fun ToBoolean :: "jsval \<Rightarrow> bool" where
  "ToBoolean JUndefined = False"
| "ToBoolean JNull = False"
| "ToBoolean (JBool b) = b"
| "ToBoolean (JNum n) = (case n of NaN \<Rightarrow> False | Finite q \<Rightarrow> q \<noteq> 0 | _ \<Rightarrow> True)"
| "ToBoolean (JStr s) = (s \<noteq> [])"
| "ToBoolean (JArr xs) = True"
| "ToBoolean (JObj kvs) = True"

text \<open>
  The server file installs \<^verbatim>\<open>bodyParser.json()\<close> before it mounts the route, so when the
  handler runs \<^verbatim>\<open>req.body\<close> is the object the parser built: a finite map from property
  names to values (the empty object when the request carries no JSON). The destructuring
  \<^verbatim>\<open>const { nftContent } = req.body\<close> reads one property, and reading a property that is
  missing gives \<^verbatim>\<open>undefined\<close>.
\<close>

type_synonym request_body = "string \<rightharpoonup> jsval"

definition get_property :: "request_body \<Rightarrow> string \<Rightarrow> jsval" where
  "get_property obj k = (case obj k of None \<Rightarrow> JUndefined | Some v \<Rightarrow> v)"

subsection \<open>Number arithmetic: round to nearest, ties to even\<close>

text \<open>
  \<^verbatim>\<open>*\<close> and \<^verbatim>\<open>+\<close> on Numbers compute the exact result and round it to the nearest binary64
  value, ties to the even significand. \<open>binade x\<close> is the exponent \<open>e\<close> with
  \<open>2 ^ e \<le> \<bar>x\<bar> < 2 ^ (e + 1)\<close>; a binary64 value has 53 significant bits, and below
  \<open>2 ^ - 1022\<close> (the subnormal range) the spacing stays \<open>2 ^ - 1074\<close>. Overflow to an
  infinity (at \<open>2 ^ 1024\<close>) is left out: every value this program computes is at most 10.
\<close>

definition round_half_even :: "rat \<Rightarrow> int" where
  "round_half_even x =
     (let n = \<lfloor>x\<rfloor>; d = x - of_int n
      in if d < 1 / 2 then n
         else if 1 / 2 < d then n + 1
         else if even n then n else n + 1)"

definition binade :: "rat \<Rightarrow> int" where
  "binade x =
     (let (a, b) = quotient_of \<bar>x\<bar>; d = bitlen a - bitlen b
      in if 2 powi d \<le> \<bar>x\<bar> then d else d - 1)"

definition qexp :: "rat \<Rightarrow> int" where
  "qexp x = max (binade x) (- 1022) - 52"

definition ulp :: "rat \<Rightarrow> rat" where
  "ulp x = 2 powi qexp x"

definition fl :: "rat \<Rightarrow> rat" where
  "fl x = of_int (round_half_even (x / ulp x)) * ulp x"

definition is_double :: "rat \<Rightarrow> bool" where
  "is_double x \<longleftrightarrow> fl x = x \<and> \<bar>x\<bar> < 2 ^ 1024"

definition js_mul :: "rat \<Rightarrow> rat \<Rightarrow> rat" where
  "js_mul x y = fl (x * y)"

definition js_add :: "rat \<Rightarrow> rat \<Rightarrow> rat" where
  "js_add x y = fl (x + y)"

definition Math_floor :: "rat \<Rightarrow> rat" where
  "Math_floor x = of_int \<lfloor>x\<rfloor>"

subsection \<open>The random source\<close>

text \<open>
  \<^verbatim>\<open>Math.random()\<close> reads a process-wide generator. Its state is the sequence of the
  values it is going to return and the number of values already returned; a call returns
  the next value and counts it. ECMAScript promises a Number \<open>r\<close> with \<open>0 \<le> r < 1\<close>,
  which \<open>valid_draws\<close> says of every value of the sequence.
\<close>

record rng =
  draws :: "nat \<Rightarrow> rat"
  consumed :: nat

definition Math_random :: "rng \<Rightarrow> rat \<times> rng" where
  "Math_random g = (draws g (consumed g), g\<lparr>consumed := Suc (consumed g)\<rparr>)"

definition valid_draws :: "rng \<Rightarrow> bool" where
  "valid_draws g \<longleftrightarrow> (\<forall>i. is_double (draws g i) \<and> 0 \<le> draws g i \<and> draws g i < 1)"

subsection \<open>Number.prototype.toFixed\<close>

definition digit_char :: "nat \<Rightarrow> char" where
  "digit_char d = ''0123456789'' ! d"

function decimal :: "nat \<Rightarrow> string" where
  "decimal n = (if n < 10 then [digit_char n] else decimal (n div 10) @ [digit_char (n mod 10)])"
  by pat_completeness auto
termination
  by (relation "measure id") auto

declare decimal.simps [simp del]

text \<open>
  \<^verbatim>\<open>x.toFixed(f)\<close> for a finite \<open>x\<close> below \<open>10 ^ 21\<close> in magnitude (above, ECMAScript falls
  back to the exponent notation; the program's value is at most 10). The steps are those
  of ECMAScript: a sign for a negative \<open>x\<close>; \<open>n\<close> the integer for which \<open>n / 10 ^ f\<close> is
  nearest to \<open>x\<close>, the larger one of two; the digits of \<open>n\<close>, padded with zeros on the left
  to \<open>f + 1\<close> digits; a point before the last \<open>f\<close> digits.
\<close>

definition toFixed :: "rat \<Rightarrow> nat \<Rightarrow> string" where
  "toFixed x f =
     (let s = (if x < 0 then ''-'' else []);
          n = nat \<lfloor>\<bar>x\<bar> * 10 ^ f + 1 / 2\<rfloor>;
          m = decimal n;
          k = length m;
          m = (if f \<noteq> 0 \<and> k \<le> f then replicate (f + 1 - k) CHR ''0'' @ m else m);
          k = length m
      in if f \<noteq> 0 then s @ take (k - f) m @ ''.'' @ drop (k - f) m else s @ m)"

subsection \<open>The route handler\<close>

text \<open>
  \<^verbatim>\<open>res.status(c).json(v)\<close> sends status \<open>c\<close> and the JSON text of \<open>v\<close>; \<^verbatim>\<open>res.json(v)\<close> alone
  sends Express's default status, 200.
\<close>

record response =
  status :: nat
  json :: jsval

text \<open>\<^verbatim>\<open>Math.floor(Math.random() * 4) + 7\<close>, as a function of the value drawn.\<close>

definition dimension_score :: "rat \<Rightarrow> rat" where
  "dimension_score r = js_add (Math_floor (js_mul r 4)) 7"

text \<open>The arrow function given to \<^verbatim>\<open>map\<close>: it ignores the element and draws once.\<close>

definition score_callback :: "jsval \<Rightarrow> rng \<Rightarrow> jsval \<times> rng" where
  "score_callback x g = (let (r, g') = Math_random g in (JNum (Finite (dimension_score r)), g'))"

text \<open>\<^verbatim>\<open>Array.prototype.map\<close>: the callback runs on the elements in ascending index order.\<close>

primrec Array_map :: "(jsval \<Rightarrow> rng \<Rightarrow> jsval \<times> rng) \<Rightarrow> jsval list \<Rightarrow> rng \<Rightarrow> jsval list \<times> rng" where
  "Array_map f [] g = ([], g)"
| "Array_map f (x # xs) g =
     (let (y, g1) = f x g; (ys, g2) = Array_map f xs g1 in (y # ys, g2))"

text \<open>\<^verbatim>\<open>(Math.random() * 3 + 7)\<close>, as a function of the value drawn.\<close>

definition overall_value :: "rat \<Rightarrow> rat" where
  "overall_value r = js_add (js_mul r 3) 7"

definition handler :: "request_body \<Rightarrow> rng \<Rightarrow> response \<times> rng" where
  "handler req_body g =
     (let nftContent = get_property req_body ''nftContent''
      in if \<not> ToBoolean nftContent then
           (\<lparr>status = 400, json = JObj [(''error'', JStr ''NFT content required'')]\<rparr>, g)
         else
           let (r, g1) = Math_random g;
               mockScore = toFixed (overall_value r) 1;
               (scores, g2) = Array_map score_callback (replicate 9 JNull) g1
           in (\<lparr>status = 200,
                 json = JObj [(''scores'', JArr scores),
                              (''overall'', JStr mockScore),
                              (''reason'', JStr ''Automated local appraisal complete'')]\<rparr>,
               g2))"

subsection \<open>Reading a response\<close>

text \<open>The value of a field of a JSON object, if the body is an object that has it.\<close>

definition json_field :: "jsval \<Rightarrow> string \<Rightarrow> jsval option" where
  "json_field v k = (case v of JObj kvs \<Rightarrow> map_of kvs k | _ \<Rightarrow> None)"

text \<open>
  What a client reads off the string \<open>overall\<close>: its value as a decimal numeral (digits,
  then optionally a point and digits), and the number of digits after the point.
\<close>

definition is_digit :: "char \<Rightarrow> bool" where
  "is_digit c \<longleftrightarrow> c \<in> set ''0123456789''"

definition digit_value :: "char \<Rightarrow> nat" where
  "digit_value c = of_char c - 48"

definition digits_value :: "string \<Rightarrow> nat" where
  "digits_value ds = foldl (\<lambda>a c. 10 * a + digit_value c) 0 ds"

definition parse_decimal :: "string \<Rightarrow> rat option" where
  "parse_decimal s =
     (let a = takeWhile (\<lambda>c. c \<noteq> CHR ''.'') s;
          rest = dropWhile (\<lambda>c. c \<noteq> CHR ''.'') s
      in if a = [] \<or> \<not> list_all is_digit a then None
         else case rest of
           [] \<Rightarrow> Some (of_nat (digits_value a))
         | p # b \<Rightarrow>
             if b = [] \<or> \<not> list_all is_digit b then None
             else Some (of_nat (digits_value a) + of_nat (digits_value b) / 10 ^ length b))"

definition fraction_digits :: "string \<Rightarrow> nat" where
  "fraction_digits s = length (drop 1 (dropWhile (\<lambda>c. c \<noteq> CHR ''.'') s))"

subsection \<open>Scripted random sources\<close>

text \<open>
  A random source that returns the values of \<open>xs\<close> in order and \<open>r\<close> ever after; the
  concrete runs below use it.
\<close>

definition replay :: "rat list \<Rightarrow> rat \<Rightarrow> rng" where
  "replay xs r = \<lparr>draws = (\<lambda>i. if i < length xs then xs ! i else r), consumed = 0\<rparr>"

section \<open>Rounding to binary64\<close>

lemma rhe_of_int [simp]: "round_half_even (of_int n) = n"
  by (simp add: round_half_even_def)


lemma rhe_floor_le: "\<lfloor>x\<rfloor> \<le> round_half_even x"
  by (simp add: round_half_even_def Let_def)

lemma rhe_le_floor: "round_half_even x \<le> \<lfloor>x\<rfloor> + 1"
  by (simp add: round_half_even_def Let_def)

lemma rhe_mono:
  assumes "x \<le> y"
  shows "round_half_even x \<le> round_half_even y"
proof (cases "\<lfloor>x\<rfloor> = \<lfloor>y\<rfloor>")
  case True
  with assms show ?thesis
    by (auto simp add: round_half_even_def Let_def)
next
  case False
  with assms have "\<lfloor>x\<rfloor> < \<lfloor>y\<rfloor>"
    by (simp add: floor_mono order.not_eq_order_implies_strict)
  with rhe_le_floor [of x] rhe_floor_le [of y] show ?thesis by linarith
qed

lemma two_powi_split: "(2::rat) powi (a + b) = 2 powi a * 2 powi b"
  by (rule power_int_add) simp

lemma two_powi_mono: "a \<le> b \<Longrightarrow> (2::rat) powi a \<le> 2 powi b"
  by (rule power_int_increasing) simp_all

lemma two_powi_less_imp:
  assumes "(2::rat) powi m < 2 powi n"
  shows "m < n"
proof (rule ccontr)
  assume "\<not> m < n"
  then have "n \<le> m" by simp
  then have "(2::rat) powi n \<le> 2 powi m" by (rule two_powi_mono)
  with assms show False by simp
qed

text \<open>The exponent that \<open>binade\<close> computes from the bit lengths is the right one.\<close>

lemma binade_bounds:
  assumes "x \<noteq> 0"
  shows "2 powi binade x \<le> \<bar>x\<bar>" and "\<bar>x\<bar> < 2 powi (binade x + 1)"
proof -
  obtain a b where q: "quotient_of \<bar>x\<bar> = (a, b)" by (cases "quotient_of \<bar>x\<bar>")
  then have b: "0 < b" by (rule quotient_of_denom_pos)
  from q have x: "\<bar>x\<bar> = of_int a / of_int b" by (rule quotient_of_div)
  from assms have "0 < \<bar>x\<bar>" by simp
  with x b have a: "0 < a" by (simp add: zero_less_divide_iff)
  define la lb where "la = bitlen a" and "lb = bitlen b"
  from bitlen_bounds [OF a] have a1: "2 ^ nat (la - 1) \<le> a" and a2: "a < 2 ^ nat la"
    by (simp_all add: la_def)
  from bitlen_bounds [OF b] have b1: "2 ^ nat (lb - 1) \<le> b" and b2: "b < 2 ^ nat lb"
    by (simp_all add: lb_def)
  have la: "1 \<le> la"
    using a bitlen_eq_zero_iff [of a] bitlen_nonneg [of a] by (simp add: la_def)
  have lb: "1 \<le> lb"
    using b bitlen_eq_zero_iff [of b] bitlen_nonneg [of b] by (simp add: lb_def)
  have ra1: "(2::rat) powi (la - 1) \<le> of_int a"
  proof -
    from a1 have "(of_int (2 ^ nat (la - 1)) :: rat) \<le> of_int a" by (simp only: of_int_le_iff)
    then show ?thesis using la by (simp add: power_int_nonneg_exp)
  qed
  have ra2: "of_int a < (2::rat) powi la"
  proof -
    from a2 have "(of_int a :: rat) < of_int (2 ^ nat la)" by (simp only: of_int_less_iff)
    then show ?thesis using la by (simp add: power_int_nonneg_exp)
  qed
  have rb1: "(2::rat) powi (lb - 1) \<le> of_int b"
  proof -
    from b1 have "(of_int (2 ^ nat (lb - 1)) :: rat) \<le> of_int b" by (simp only: of_int_le_iff)
    then show ?thesis using lb by (simp add: power_int_nonneg_exp)
  qed
  have rb2: "of_int b < (2::rat) powi lb"
  proof -
    from b2 have "(of_int b :: rat) < of_int (2 ^ nat lb)" by (simp only: of_int_less_iff)
    then show ?thesis using lb by (simp add: power_int_nonneg_exp)
  qed
  have lo: "(2::rat) powi (la - lb - 1) < \<bar>x\<bar>"
  proof -
    have "(2::rat) powi (la - lb - 1) * of_int b < 2 powi (la - lb - 1) * 2 powi lb"
      using rb2 by simp
    also have "\<dots> = 2 powi (la - 1)"
      by (simp flip: power_int_add)
    also have "\<dots> \<le> of_int a" by (rule ra1)
    finally show ?thesis using b by (simp add: x pos_less_divide_eq)
  qed
  have hi: "\<bar>x\<bar> < (2::rat) powi (la - lb + 1)"
  proof -
    have "of_int a < (2::rat) powi la" by (rule ra2)
    also have "\<dots> = 2 powi (la - lb + 1) * 2 powi (lb - 1)"
      by (simp flip: power_int_add)
    also have "\<dots> \<le> 2 powi (la - lb + 1) * of_int b"
      using rb1 by simp
    finally show ?thesis using b by (simp add: x pos_divide_less_eq)
  qed
  have e: "binade x = (if 2 powi (la - lb) \<le> \<bar>x\<bar> then la - lb else la - lb - 1)"
    by (simp add: binade_def q la_def lb_def Let_def)
  show "2 powi binade x \<le> \<bar>x\<bar>" using lo by (simp add: e)
  show "\<bar>x\<bar> < 2 powi (binade x + 1)" using hi by (auto simp add: e not_le)
qed

lemma binade_mono:
  assumes "0 < x" and "x \<le> y"
  shows "binade x \<le> binade y"
proof -
  from assms have nz: "x \<noteq> 0" "y \<noteq> 0" by auto
  have "2 powi binade x \<le> \<bar>x\<bar>" by (rule binade_bounds(1) [OF nz(1)])
  also have "\<dots> \<le> \<bar>y\<bar>" using assms by simp
  also have "\<dots> < 2 powi (binade y + 1)" by (rule binade_bounds(2) [OF nz(2)])
  finally have "binade x < binade y + 1" by (rule two_powi_less_imp)
  then show ?thesis by simp
qed

lemma ulp_pos [simp]: "0 < ulp x"
  by (simp add: ulp_def)

lemma ulp_neq_0 [simp]: "ulp x \<noteq> 0"
  by (simp add: ulp_def)

lemma ulp_nonneg [simp]: "0 \<le> ulp x"
  by (rule less_imp_le) (rule ulp_pos)

lemma fl_0 [simp]: "fl 0 = 0"
  by (simp add: fl_def round_half_even_def)

text \<open>A value with at most 53 significant bits above the subnormal spacing is not rounded.\<close>

lemma fl_exact:
  assumes x: "x = of_int m * 2 powi e" and m: "\<bar>m\<bar> < 2 ^ 53" and e: "- 1074 \<le> e"
  shows "fl x = x"
proof (cases "m = 0")
  case True
  with x show ?thesis by simp
next
  case False
  with x have nz: "x \<noteq> 0" by simp
  have le: "qexp x \<le> e"
  proof (rule ccontr)
    assume "\<not> qexp x \<le> e"
    then have lt: "e < qexp x" by simp
    with e have "e + 53 \<le> binade x" by (simp add: qexp_def max_def split: if_splits)
    then have "(2::rat) powi (e + 53) \<le> 2 powi binade x" by (rule two_powi_mono)
    also have "\<dots> \<le> \<bar>x\<bar>" by (rule binade_bounds(1) [OF nz])
    also have "\<dots> = of_int \<bar>m\<bar> * 2 powi e" by (simp add: x abs_mult)
    also have "\<dots> < 2 ^ 53 * 2 powi e"
    proof -
      from m have "(of_int \<bar>m\<bar> :: rat) < of_int (2 ^ 53)" by (simp only: of_int_less_iff)
      then show ?thesis by simp
    qed
    also have "\<dots> = 2 powi (e + 53)" by (simp add: two_powi_split)
    finally show False by simp
  qed
  define k where "k = nat (e - qexp x)"
  have "e = qexp x + int k" using le by (simp add: k_def)
  then have "(2::rat) powi e = 2 powi qexp x * 2 ^ k" by (simp add: two_powi_split)
  then have pe: "2 powi e = ulp x * 2 ^ k" by (simp only: ulp_def)
  define u where "u = ulp x"
  have u: "0 < u" by (simp add: u_def)
  have "x = of_int (m * 2 ^ k) * u" using x pe by (simp add: u_def [symmetric])
  with u have "x / u = of_int (m * 2 ^ k)" by simp
  then have q: "x / ulp x = of_int (m * 2 ^ k)" by (simp only: u_def)
  have "fl x = of_int (m * 2 ^ k) * ulp x" unfolding fl_def q rhe_of_int ..
  also have "\<dots> = x / ulp x * ulp x" by (simp only: q)
  also have "\<dots> = x" by simp
  finally show ?thesis .
qed

lemma abs_less_ulp:
  assumes "x \<noteq> 0"
  shows "\<bar>x\<bar> < 2 ^ 53 * ulp x"
proof -
  have "\<bar>x\<bar> < 2 powi (binade x + 1)" by (rule binade_bounds(2) [OF assms])
  also have "\<dots> \<le> 2 powi (qexp x + 53)" by (rule two_powi_mono) (simp add: qexp_def)
  also have "\<dots> = 2 ^ 53 * ulp x" by (simp add: two_powi_split ulp_def)
  finally show ?thesis .
qed

text \<open>Conversely, a value that rounding leaves alone has such a representation.\<close>

lemma fl_repr:
  assumes "fl x = x"
  shows "\<exists>m e. x = of_int m * 2 powi e \<and> \<bar>m\<bar> < 2 ^ 53 \<and> - 1074 \<le> e"
proof (cases "x = 0")
  case True
  then have "x = of_int 0 * 2 powi 0 \<and> \<bar>0::int\<bar> < 2 ^ 53 \<and> - 1074 \<le> (0::int)" by simp
  then show ?thesis by blast
next
  case False
  define m where "m = round_half_even (x / ulp x)"
  define u where "u = ulp x"
  have u: "0 < u" by (simp add: u_def)
  from assms have x: "x = of_int m * ulp x" by (simp add: fl_def m_def)
  then have "x = of_int m * u" by (simp only: u_def)
  then have "\<bar>x\<bar> = of_int \<bar>m\<bar> * u" using u by (simp add: abs_mult)
  then have "of_int \<bar>m\<bar> * ulp x = \<bar>x\<bar>" by (simp only: u_def)
  also have "\<dots> < 2 ^ 53 * ulp x" by (rule abs_less_ulp [OF False])
  finally have "(of_int \<bar>m\<bar> :: rat) < of_int (2 ^ 53)" by simp
  then have "\<bar>m\<bar> < 2 ^ 53" by (simp only: of_int_less_iff)
  moreover have "- 1074 \<le> qexp x" by (simp add: qexp_def)
  ultimately show ?thesis using x unfolding ulp_def by blast
qed

text \<open>Multiplying a binary64 value by 4 only moves its exponent.\<close>

lemma fl_times_4:
  assumes "fl x = x"
  shows "fl (x * 4) = x * 4"
proof -
  from fl_repr [OF assms] obtain m e
    where x: "x = of_int m * 2 powi e" and m: "\<bar>m\<bar> < 2 ^ 53" and e: "- 1074 \<le> e" by blast
  have "x * 4 = of_int m * 2 powi (e + 2)" by (simp add: x two_powi_split)
  moreover note m
  moreover from e have "- 1074 \<le> e + 2" by simp
  ultimately show ?thesis by (rule fl_exact)
qed

lemma fl_nonneg:
  assumes "0 \<le> x"
  shows "0 \<le> fl x"
proof -
  from assms have "0 \<le> x / ulp x" by (intro divide_nonneg_pos ulp_pos)
  then have "round_half_even 0 \<le> round_half_even (x / ulp x)" by (rule rhe_mono)
  then have "0 \<le> round_half_even (x / ulp x)" by (simp add: round_half_even_def)
  then show ?thesis by (simp add: fl_def)
qed

lemma fl_upper:
  assumes "0 < x"
  shows "fl x \<le> 2 ^ 53 * ulp x"
proof -
  from assms have "x \<noteq> 0" by simp
  from abs_less_ulp [OF this] assms have "x / ulp x \<le> of_int (2 ^ 53)"
    by (simp add: pos_divide_le_eq)
  then have "round_half_even (x / ulp x) \<le> round_half_even (of_int (2 ^ 53))" by (rule rhe_mono)
  then have "round_half_even (x / ulp x) \<le> 2 ^ 53" by (simp only: rhe_of_int)
  then have "(of_int (round_half_even (x / ulp x)) :: rat) \<le> of_int (2 ^ 53)"
    by (simp only: of_int_le_iff)
  then show ?thesis by (simp add: fl_def)
qed

lemma fl_lower:
  assumes "0 < x" and "- 1022 \<le> binade x"
  shows "2 powi binade x \<le> fl x"
proof -
  from assms(1) have nz: "x \<noteq> 0" by simp
  from assms(2) have q: "binade x = qexp x + 52" by (simp add: qexp_def)
  have "2 ^ 52 * ulp x = 2 powi binade x" by (simp add: q two_powi_split ulp_def)
  also have "\<dots> \<le> x" using binade_bounds(1) [OF nz] assms(1) by simp
  finally have "of_int (2 ^ 52) \<le> x / ulp x" by (simp add: pos_le_divide_eq)
  then have "round_half_even (of_int (2 ^ 52)) \<le> round_half_even (x / ulp x)" by (rule rhe_mono)
  then have "2 ^ 52 \<le> round_half_even (x / ulp x)" by (simp only: rhe_of_int)
  then have "(of_int (2 ^ 52) :: rat) \<le> of_int (round_half_even (x / ulp x))"
    by (simp only: of_int_le_iff)
  then have "2 ^ 52 * ulp x \<le> fl x" by (simp add: fl_def)
  then show ?thesis by (simp add: q two_powi_split ulp_def)
qed

text \<open>Rounding is monotone: within a binade by rounding to the grid, across by its ends.\<close>

lemma fl_mono_pos:
  assumes "0 < x" and "x \<le> y"
  shows "fl x \<le> fl y"
proof -
  from assms have y: "0 < y" by simp
  from binade_mono [OF assms] have le: "qexp x \<le> qexp y" by (simp add: qexp_def)
  show ?thesis
  proof (cases "qexp x = qexp y")
    case True
    then have u: "ulp x = ulp y" by (simp add: ulp_def)
    from assms(2) have "x / ulp y \<le> y / ulp y" by (intro divide_right_mono ulp_nonneg)
    then have "round_half_even (x / ulp y) \<le> round_half_even (y / ulp y)" by (rule rhe_mono)
    then show ?thesis by (simp add: fl_def u)
  next
    case False
    with le have lt: "qexp x + 1 \<le> qexp y" by simp
    then have b: "- 1022 \<le> binade y" and q: "binade y = qexp y + 52"
      by (simp_all add: qexp_def max_def split: if_splits)
    have "fl x \<le> 2 ^ 53 * ulp x" by (rule fl_upper [OF assms(1)])
    also have "\<dots> = 2 powi (qexp x + 1 + 52)" by (simp add: two_powi_split ulp_def)
    also have "\<dots> \<le> 2 powi (qexp y + 52)" using lt by (intro two_powi_mono) simp
    also have "\<dots> = 2 powi binade y" by (simp only: q)
    also have "\<dots> \<le> fl y" by (rule fl_lower [OF y b])
    finally show ?thesis .
  qed
qed

lemma fl_mono:
  assumes "0 \<le> x" and "x \<le> y"
  shows "fl x \<le> fl y"
proof (cases "x = 0")
  case True
  with assms fl_nonneg [of y] show ?thesis by simp
next
  case False
  with assms have "0 < x" by simp
  then show ?thesis using assms(2) by (rule fl_mono_pos)
qed

text \<open>Integers below \<open>2 ^ 53\<close> and dyadic fractions with a small numerator are binary64 values.\<close>

lemma fl_of_int:
  assumes "\<bar>m\<bar> < 2 ^ 53"
  shows "fl (of_int m) = of_int m"
  using fl_exact [of "of_int m" m 0] assms by simp

lemma fl_dyadic:
  assumes "\<bar>m\<bar> < 2 ^ 53" and "k \<le> 1074"
  shows "fl (of_int m / 2 ^ k) = of_int m / 2 ^ k"
proof -
  have "of_int m / 2 ^ k = of_int m * (2::rat) powi (- int k)"
    by (simp add: power_int_minus divide_inverse)
  moreover note assms(1)
  moreover from assms(2) have "- 1074 \<le> - int k" by simp
  ultimately show ?thesis by (rule fl_exact)
qed

section \<open>What the handler computes\<close>

lemma Math_random_simp [simp]:
  "Math_random g = (draws g (consumed g), g\<lparr>consumed := Suc (consumed g)\<rparr>)"
  by (rule Math_random_def)

lemma upt_0_Suc_shift: "[0..<Suc n] = 0 # map Suc [0..<n]"
  by (simp add: upt_conv_Cons map_Suc_upt del: upt_Suc)

lemma score_callback_draw:
  "score_callback x g =
     (JNum (Finite (dimension_score (draws g (consumed g)))), g\<lparr>consumed := Suc (consumed g)\<rparr>)"
  by (simp add: score_callback_def)

lemma Array_map_draws:
  assumes f: "\<And>x g. f x g = (h (draws g (consumed g)), g\<lparr>consumed := Suc (consumed g)\<rparr>)"
  shows "Array_map f xs g =
     (map (\<lambda>i. h (draws g (consumed g + i))) [0..<length xs],
      g\<lparr>consumed := consumed g + length xs\<rparr>)"
proof (induction xs arbitrary: g)
  case Nil
  show ?case by simp
next
  case (Cons x xs)
  have step: "f x g = (h (draws g (consumed g)), g\<lparr>consumed := Suc (consumed g)\<rparr>)"
    by (rule f)
  have "Array_map f (x # xs) g =
     (h (draws g (consumed g)) #
        map (\<lambda>i. h (draws g (Suc (consumed g) + i))) [0..<length xs],
      g\<lparr>consumed := Suc (consumed g) + length xs\<rparr>)"
    unfolding Array_map.simps step Let_def prod.case Cons.IH by simp
  then show ?case
    by (simp add: upt_0_Suc_shift comp_def del: upt_Suc)
qed

lemma Array_map_score_callback:
  "Array_map score_callback xs g =
     (map (\<lambda>i. JNum (Finite (dimension_score (draws g (consumed g + i))))) [0..<length xs],
      g\<lparr>consumed := consumed g + length xs\<rparr>)"
  by (rule Array_map_draws) (rule score_callback_draw)

lemma handler_rejects:
  assumes "\<not> ToBoolean (get_property req_body ''nftContent'')"
  shows "handler req_body g =
    (\<lparr>status = 400, json = JObj [(''error'', JStr ''NFT content required'')]\<rparr>, g)"
  using assms by (simp add: handler_def)

lemma handler_accepts:
  assumes "ToBoolean (get_property req_body ''nftContent'')"
  shows "handler req_body g =
    (\<lparr>status = 200,
      json = JObj
        [(''scores'', JArr (map (\<lambda>i. JNum (Finite (dimension_score (draws g (consumed g + 1 + i))))) [0..<9])),
         (''overall'', JStr (toFixed (overall_value (draws g (consumed g))) 1)),
         (''reason'', JStr ''Automated local appraisal complete'')]\<rparr>,
     g\<lparr>consumed := consumed g + 10\<rparr>)"
  using assms by (simp add: handler_def Array_map_score_callback del: upt_Suc replicate.simps upt.simps)


section \<open>The two random expressions\<close>

lemma fl_small_nat:
  assumes "n \<le> 10"
  shows "fl (of_nat n) = of_nat n"
proof -
  from assms have "\<bar>int n\<bar> < 2 ^ 53" by simp
  from fl_of_int [OF this] show ?thesis by simp
qed

lemma dimension_score_exact:
  assumes d: "is_double r" and r0: "0 \<le> r" and r1: "r < 1"
  shows "dimension_score r = of_int (\<lfloor>r * 4\<rfloor> + 7)"
    and "0 \<le> \<lfloor>r * 4\<rfloor>" and "\<lfloor>r * 4\<rfloor> \<le> 3"
proof -
  from d have "fl r = r" by (simp add: is_double_def)
  then have m: "js_mul r 4 = r * 4" unfolding js_mul_def by (rule fl_times_4)
  from r0 show lo: "0 \<le> \<lfloor>r * 4\<rfloor>" by simp
  from r1 have "r * 4 < 4" by simp
  then have "\<lfloor>r * 4\<rfloor> < 4" by (simp add: floor_less_iff)
  then show hi: "\<lfloor>r * 4\<rfloor> \<le> 3" by simp
  from lo hi have "\<bar>\<lfloor>r * 4\<rfloor> + 7\<bar> < 2 ^ 53" by simp
  from fl_of_int [OF this] show "dimension_score r = of_int (\<lfloor>r * 4\<rfloor> + 7)"
    by (simp add: dimension_score_def m Math_floor_def js_add_def)
qed

lemma overall_value_bounds:
  assumes r0: "0 \<le> r" and r1: "r < 1"
  shows "7 \<le> overall_value r" and "overall_value r \<le> 10"
proof -
  have f3: "fl 3 = 3" using fl_small_nat [of 3] by simp
  have f7: "fl 7 = 7" using fl_small_nat [of 7] by simp
  have f10: "fl 10 = 10" using fl_small_nat [of 10] by simp
  from r0 have p0: "0 \<le> r * 3" by simp
  then have m0: "0 \<le> js_mul r 3" unfolding js_mul_def by (rule fl_nonneg)
  from r1 have "r * 3 \<le> 3" by simp
  with p0 have "fl (r * 3) \<le> fl 3" by (rule fl_mono)
  then have m3: "js_mul r 3 \<le> 3" by (simp add: js_mul_def f3)
  from m0 have "fl 7 \<le> fl (js_mul r 3 + 7)" by (intro fl_mono) simp_all
  then show "7 \<le> overall_value r" by (simp add: overall_value_def js_add_def f7)
  from m0 m3 have "fl (js_mul r 3 + 7) \<le> fl 10" by (intro fl_mono) simp_all
  then show "overall_value r \<le> 10" by (simp add: overall_value_def js_add_def f10)
qed

text \<open>The score as a function of a binary64 value of \<open>[0, 1)\<close>: one value per quarter.\<close>

lemma dimension_score_intervals:
  assumes d: "is_double r" and r0: "0 \<le> r" and r1: "r < 1"
  shows "dimension_score r \<in> {7, 8, 9, 10}"
    and "dimension_score r = 7 \<longleftrightarrow> 0 \<le> r \<and> r < 1 / 4"
    and "dimension_score r = 8 \<longleftrightarrow> 1 / 4 \<le> r \<and> r < 1 / 2"
    and "dimension_score r = 9 \<longleftrightarrow> 1 / 2 \<le> r \<and> r < 3 / 4"
    and "dimension_score r = 10 \<longleftrightarrow> 3 / 4 \<le> r \<and> r < 1"
proof -
  define k where "k = \<lfloor>r * 4\<rfloor>"
  note e = dimension_score_exact [OF d r0 r1, folded k_def]
  from e(2,3) have "k = 0 \<or> k = 1 \<or> k = 2 \<or> k = 3" by auto
  with e(1) show "dimension_score r \<in> {7, 8, 9, 10}" by auto
  have score: "dimension_score r = of_int (j + 7) \<longleftrightarrow> k = j" for j
    unfolding e(1) of_int_eq_iff by simp
  have k0: "k = 0 \<longleftrightarrow> 0 \<le> r \<and> r < 1 / 4" unfolding k_def floor_eq_iff by auto
  have k1: "k = 1 \<longleftrightarrow> 1 / 4 \<le> r \<and> r < 1 / 2" unfolding k_def floor_eq_iff by auto
  have k2: "k = 2 \<longleftrightarrow> 1 / 2 \<le> r \<and> r < 3 / 4" unfolding k_def floor_eq_iff by auto
  have k3: "k = 3 \<longleftrightarrow> 3 / 4 \<le> r \<and> r < 1" unfolding k_def floor_eq_iff by auto
  show "dimension_score r = 7 \<longleftrightarrow> 0 \<le> r \<and> r < 1 / 4"
    using score [of 0] k0 by simp
  show "dimension_score r = 8 \<longleftrightarrow> 1 / 4 \<le> r \<and> r < 1 / 2"
    using score [of 1] k1 by simp
  show "dimension_score r = 9 \<longleftrightarrow> 1 / 2 \<le> r \<and> r < 3 / 4"
    using score [of 2] k2 by simp
  show "dimension_score r = 10 \<longleftrightarrow> 3 / 4 \<le> r \<and> r < 1"
    using score [of 3] k3 by simp
qed

section \<open>The string that toFixed builds\<close>

lemma digit_char_is_digit: "d < 10 \<Longrightarrow> is_digit (digit_char d)"
proof -
  assume "d < 10"
  then have "d \<in> {0, 1, 2, 3, 4, 5, 6, 7, 8, 9}" by auto
  then show ?thesis by (auto simp add: digit_char_def is_digit_def)
qed

lemma digit_value_digit_char: "d < 10 \<Longrightarrow> digit_value (digit_char d) = d"
proof -
  assume "d < 10"
  then have "d \<in> {0, 1, 2, 3, 4, 5, 6, 7, 8, 9}" by auto
  then show ?thesis by (auto simp add: digit_char_def digit_value_def)
qed

lemma decimal_digits: "list_all is_digit (decimal n)"
proof (induction n rule: decimal.induct)
  case (1 n)
  show ?case
  proof (cases "n < 10")
    case True
    then show ?thesis by (subst decimal.simps) (simp add: digit_char_is_digit)
  next
    case False
    with 1 show ?thesis by (subst decimal.simps) (simp add: digit_char_is_digit)
  qed
qed

lemma decimal_not_Nil: "decimal n \<noteq> []"
  by (subst decimal.simps) simp

lemma digits_value_snoc: "digits_value (ds @ [c]) = 10 * digits_value ds + digit_value c"
  by (simp add: digits_value_def)

lemma digits_value_single: "digits_value [c] = digit_value c"
  by (simp add: digits_value_def)

lemma digits_value_decimal: "digits_value (decimal n) = n"
proof (induction n rule: decimal.induct)
  case (1 n)
  show ?case
  proof (cases "n < 10")
    case True
    then show ?thesis
      by (subst decimal.simps) (simp add: digits_value_def digit_value_digit_char)
  next
    case False
    with 1 show ?thesis
      by (subst decimal.simps) (simp add: digits_value_snoc digit_value_digit_char)
  qed
qed

lemma is_digit_not_point: "is_digit c \<Longrightarrow> c \<noteq> CHR ''.''"
  by (auto simp add: is_digit_def)

lemma toFixed_1:
  assumes "0 \<le> x"
  shows "toFixed x 1 =
    decimal (nat \<lfloor>x * 10 + 1 / 2\<rfloor> div 10) @ ''.'' @ [digit_char (nat \<lfloor>x * 10 + 1 / 2\<rfloor> mod 10)]"
proof -
  define n where "n = nat \<lfloor>x * 10 + 1 / 2\<rfloor>"
  from assms have ax: "\<bar>x\<bar> = x" and nn: "\<not> x < 0" by simp_all
  show ?thesis
  proof (cases "n < 10")
    case True
    then have "decimal n = [digit_char n]" by (subst decimal.simps) simp
    moreover from True have "decimal (n div 10) = ''0''"
      by (subst decimal.simps) (simp add: digit_char_def)
    ultimately show ?thesis using True
      by (simp add: toFixed_def ax nn n_def [symmetric] Let_def)
  next
    case False
    then have d: "decimal n = decimal (n div 10) @ [digit_char (n mod 10)]"
      by (subst decimal.simps) simp
    have "decimal (n div 10) \<noteq> []" by (rule decimal_not_Nil)
    then have "1 \<le> length (decimal (n div 10))" by (cases "decimal (n div 10)") simp_all
    then show ?thesis
      by (simp add: toFixed_def ax nn n_def [symmetric] Let_def d decimal_not_Nil)
  qed
qed

lemma parse_decimal_one_digit:
  assumes "d < 10"
  shows "parse_decimal (decimal a @ ''.'' @ [digit_char d]) = Some (of_nat a + of_nat d / 10)"
    and "fraction_digits (decimal a @ ''.'' @ [digit_char d]) = 1"
proof -
  have np: "\<And>c. c \<in> set (decimal a) \<Longrightarrow> c \<noteq> CHR ''.''"
    using decimal_digits [of a] by (auto simp add: list_all_iff is_digit_not_point)
  have t: "takeWhile (\<lambda>c. c \<noteq> CHR ''.'') (decimal a @ ''.'' @ [digit_char d]) = decimal a"
    using np by (simp add: takeWhile_append2)
  have dr: "dropWhile (\<lambda>c. c \<noteq> CHR ''.'') (decimal a @ ''.'' @ [digit_char d]) = ''.'' @ [digit_char d]"
    using np by (simp add: dropWhile_append2)
  show "parse_decimal (decimal a @ ''.'' @ [digit_char d]) = Some (of_nat a + of_nat d / 10)"
    unfolding parse_decimal_def t dr Let_def
    using assms
    by (simp add: decimal_not_Nil decimal_digits digits_value_decimal digit_char_is_digit
        digits_value_single digit_value_digit_char)
  show "fraction_digits (decimal a @ ''.'' @ [digit_char d]) = 1"
    unfolding fraction_digits_def dr by simp
qed

lemma toFixed_1_parse:
  assumes "0 \<le> x"
  shows "parse_decimal (toFixed x 1) = Some (of_int \<lfloor>x * 10 + 1 / 2\<rfloor> / 10)"
    and "fraction_digits (toFixed x 1) = 1"
proof -
  define n where "n = nat \<lfloor>x * 10 + 1 / 2\<rfloor>"
  from assms have "0 \<le> \<lfloor>x * 10 + 1 / 2\<rfloor>" by simp
  then have n: "of_int \<lfloor>x * 10 + 1 / 2\<rfloor> = (of_nat n :: rat)" by (simp add: n_def)
  have md: "n mod 10 < 10" by simp
  have "(of_nat n :: rat) = of_nat (n div 10 * 10 + n mod 10)" by simp
  also have "\<dots> = of_nat (n div 10) * 10 + of_nat (n mod 10)" by (simp only: of_nat_add of_nat_mult of_nat_numeral)
  finally have split: "(of_nat n :: rat) / 10 = of_nat (n div 10) + of_nat (n mod 10) / 10"
    by simp
  show "parse_decimal (toFixed x 1) = Some (of_int \<lfloor>x * 10 + 1 / 2\<rfloor> / 10)"
    unfolding toFixed_1 [OF assms] n n_def [symmetric] split
    by (rule parse_decimal_one_digit(1) [OF md])
  show "fraction_digits (toFixed x 1) = 1"
    unfolding toFixed_1 [OF assms] n_def [symmetric]
    by (rule parse_decimal_one_digit(2) [OF md])
qed

text \<open>Rounding a value between 7 and 10 to tenths stays between 7 and 10.\<close>

lemma round_tenths_bounds:
  assumes "7 \<le> (x::rat)" and "x \<le> 10"
  shows "(7::rat) \<le> of_int \<lfloor>x * 10 + 1 / 2\<rfloor> / 10" and "of_int \<lfloor>x * 10 + 1 / 2\<rfloor> / 10 \<le> (10::rat)"
proof -
  from assms(1) have "of_int 70 \<le> x * 10 + 1 / 2" by simp
  then have "70 \<le> \<lfloor>x * 10 + 1 / 2\<rfloor>" by (simp only: le_floor_iff)
  then have "(of_int 70 :: rat) \<le> of_int \<lfloor>x * 10 + 1 / 2\<rfloor>" by (simp only: of_int_le_iff)
  then show "(7::rat) \<le> of_int \<lfloor>x * 10 + 1 / 2\<rfloor> / 10" by simp
  from assms(2) have "x * 10 + 1 / 2 < of_int 101" by simp
  then have "\<lfloor>x * 10 + 1 / 2\<rfloor> < 101" by (simp only: floor_less_iff)
  then have "\<lfloor>x * 10 + 1 / 2\<rfloor> \<le> 100" by simp
  then have "(of_int \<lfloor>x * 10 + 1 / 2\<rfloor> :: rat) \<le> of_int 100" by (simp only: of_int_le_iff)
  then show "of_int \<lfloor>x * 10 + 1 / 2\<rfloor> / 10 \<le> (10::rat)" by simp
qed

section \<open>Validation and the status\<close>

lemma get_property_upd [simp]: "get_property [k \<mapsto> v] k = v"
  by (simp add: get_property_def)

lemma get_property_empty [simp]: "get_property Map.empty k = JUndefined"
  by (simp add: get_property_def)

lemma json_field_JObj [simp]: "json_field (JObj kvs) k = map_of kvs k"
  by (simp add: json_field_def)

text \<open>The falsy values among those a request can hold, and what the status tells.\<close>

lemma falsy_values:
  "\<not> ToBoolean v \<longleftrightarrow>
     v = JUndefined \<or> v = JNull \<or> v = JStr [] \<or> v = JBool False \<or>
     v = JNum (Finite 0) \<or> v = JNum NaN"
proof (cases v)
  case (JNum n)
  then show ?thesis by (cases n) auto
qed auto

lemma status_400_iff:
  "status (fst (handler req_body g)) = 400 \<longleftrightarrow>
     \<not> ToBoolean (get_property req_body ''nftContent'')"
  by (cases "ToBoolean (get_property req_body ''nftContent'')")
    (simp_all add: handler_accepts handler_rejects)

lemma status_200_iff:
  "status (fst (handler req_body g)) = 200 \<longleftrightarrow>
     ToBoolean (get_property req_body ''nftContent'')"
  by (cases "ToBoolean (get_property req_body ''nftContent'')")
    (simp_all add: handler_accepts handler_rejects)

section \<open>Concrete values and runs\<close>

lemma is_double_dyadic:
  assumes "\<bar>m\<bar> < 2 ^ 53" and "k \<le> 1074" and "\<bar>of_int m / 2 ^ k :: rat\<bar> < 2 ^ 1024"
  shows "is_double (of_int m / 2 ^ k)"
  using fl_dyadic [OF assms(1,2)] assms(3) by (simp add: is_double_def)

lemma is_double_0: "is_double 0"
  by (simp add: is_double_def)

lemma is_double_quarter: "is_double (1 / 4)"
  using is_double_dyadic [of 1 2] by simp

lemma is_double_half: "is_double (1 / 2)"
  using is_double_dyadic [of 1 1] by simp

lemma is_double_three_quarters: "is_double (3 / 4)"
  using is_double_dyadic [of 3 2] by simp

lemma is_double_255_256: "is_double (255 / 256)"
  using is_double_dyadic [of 255 8] by simp

lemma valid_draws_replay:
  assumes "list_all (\<lambda>x. is_double x \<and> 0 \<le> x \<and> x < 1) xs" and "is_double r" and "0 \<le> r" and "r < 1"
  shows "valid_draws (replay xs r)"
  using assms by (auto simp add: valid_draws_def replay_def list_all_length)

lemma draws_replay [simp]: "draws (replay xs r) i = (if i < length xs then xs ! i else r)"
  by (simp add: replay_def)

lemma consumed_replay [simp]: "consumed (replay xs r) = 0"
  by (simp add: replay_def)

lemma valid_draws_half: "valid_draws (replay [] (1 / 2))"
  by (rule valid_draws_replay) (simp_all add: is_double_half)

lemma valid_draws_0: "valid_draws (replay [] 0)"
  by (rule valid_draws_replay) (simp_all add: is_double_0)

lemma valid_draws_half_then_0: "valid_draws (replay [1 / 2] 0)"
  by (rule valid_draws_replay) (simp_all add: is_double_half is_double_0)

lemma valid_draws_0_then_half: "valid_draws (replay [0, 1 / 2] 0)"
  by (rule valid_draws_replay) (simp_all add: is_double_half is_double_0)

lemma valid_draws_quarters: "valid_draws (replay [0, 1 / 4, 1 / 2, 3 / 4] 0)"
  by (rule valid_draws_replay)
    (simp_all add: is_double_0 is_double_quarter is_double_half is_double_three_quarters)

lemma dimension_score_0: "dimension_score 0 = 7"
  using dimension_score_exact(1) [OF is_double_0] by simp

lemma dimension_score_quarter: "dimension_score (1 / 4) = 8"
  using dimension_score_exact(1) [OF is_double_quarter] by simp

lemma dimension_score_half: "dimension_score (1 / 2) = 9"
  using dimension_score_exact(1) [OF is_double_half] by simp

lemma dimension_score_three_quarters: "dimension_score (3 / 4) = 10"
  using dimension_score_exact(1) [OF is_double_three_quarters] by simp

lemma overall_value_0: "overall_value 0 = 7"
  using fl_small_nat [of 7] by (simp add: overall_value_def js_mul_def js_add_def)

lemma overall_value_half: "overall_value (1 / 2) = 17 / 2"
proof -
  have a: "fl (3 / 2) = 3 / 2" using fl_dyadic [of 3 1] by simp
  have b: "fl (17 / 2) = 17 / 2" using fl_dyadic [of 17 1] by simp
  have "overall_value (1 / 2) = fl (fl (3 / 2) + 7)"
    by (simp add: overall_value_def js_mul_def js_add_def)
  also have "\<dots> = fl (17 / 2)" unfolding a by simp
  finally show ?thesis unfolding b .
qed

lemma overall_value_255_256: "overall_value (255 / 256) = 2557 / 256"
proof -
  have a: "fl (765 / 256) = 765 / 256" using fl_dyadic [of 765 8] by simp
  have b: "fl (2557 / 256) = 2557 / 256" using fl_dyadic [of 2557 8] by simp
  have "overall_value (255 / 256) = fl (fl (765 / 256) + 7)"
    by (simp add: overall_value_def js_mul_def js_add_def)
  also have "\<dots> = fl (2557 / 256)" unfolding a by simp
  finally show ?thesis unfolding b .
qed

lemma toFixed_7: "toFixed 7 1 = ''7.0''"
  by code_simp

lemma toFixed_17_2: "toFixed (17 / 2) 1 = ''8.5''"
  by code_simp

lemma toFixed_2557_256: "toFixed (2557 / 256) 1 = ''10.0''"
  by code_simp

lemma parse_10_0: "parse_decimal ''10.0'' = Some 10"
  by code_simp

lemma upt_9: "[0..<9] = 0 # map Suc [0..<8]"
  using upt_0_Suc_shift [of 8] by simp

lemma replicate_9: "replicate 9 x = x # replicate 8 x"
  by (simp add: numeral_eq_Suc)

lemma truthy_x [simp]: "ToBoolean (get_property [''nftContent'' \<mapsto> JStr ''x''] ''nftContent'')"
  by simp

text \<open>
  Four runs that the claims below use. The values drawn are \<open>1/2, 0, 0, \<dots>\<close> in the
  first, \<open>1/2, 1/2, 1/2, \<dots>\<close> in the second, \<open>0, 0, 0, \<dots>\<close> in the third and
  \<open>0, 1/2, 0, \<dots>\<close> in the fourth.
\<close>

lemma run_half_then_0:
  assumes "ToBoolean (get_property req_body ''nftContent'')"
  shows "handler req_body (replay [1 / 2] 0) =
    (\<lparr>status = 200,
      json = JObj [(''scores'', JArr (replicate 9 (JNum (Finite 7)))),
                   (''overall'', JStr ''8.5''),
                   (''reason'', JStr ''Automated local appraisal complete'')]\<rparr>,
     (replay [1 / 2] 0)\<lparr>consumed := 10\<rparr>)"
  by (simp add: handler_accepts [OF assms] overall_value_half toFixed_17_2
      dimension_score_0 map_replicate_const del: One_nat_def upt_Suc)

lemma run_all_half:
  assumes "ToBoolean (get_property req_body ''nftContent'')"
  shows "handler req_body (replay [] (1 / 2)) =
    (\<lparr>status = 200,
      json = JObj [(''scores'', JArr (replicate 9 (JNum (Finite 9)))),
                   (''overall'', JStr ''8.5''),
                   (''reason'', JStr ''Automated local appraisal complete'')]\<rparr>,
     (replay [] (1 / 2))\<lparr>consumed := 10\<rparr>)"
  by (simp add: handler_accepts [OF assms] overall_value_half toFixed_17_2
      dimension_score_half map_replicate_const del: One_nat_def upt_Suc)

lemma run_all_0:
  assumes "ToBoolean (get_property req_body ''nftContent'')"
  shows "handler req_body (replay [] 0) =
    (\<lparr>status = 200,
      json = JObj [(''scores'', JArr (replicate 9 (JNum (Finite 7)))),
                   (''overall'', JStr ''7.0''),
                   (''reason'', JStr ''Automated local appraisal complete'')]\<rparr>,
     (replay [] 0)\<lparr>consumed := 10\<rparr>)"
  by (simp add: handler_accepts [OF assms] overall_value_0 toFixed_7
      dimension_score_0 map_replicate_const del: One_nat_def upt_Suc)

lemma run_0_then_half:
  assumes "ToBoolean (get_property req_body ''nftContent'')"
  shows "handler req_body (replay [0, 1 / 2] 0) =
    (\<lparr>status = 200,
      json = JObj [(''scores'', JArr (JNum (Finite 9) # replicate 8 (JNum (Finite 7)))),
                   (''overall'', JStr ''7.0''),
                   (''reason'', JStr ''Automated local appraisal complete'')]\<rparr>,
     (replay [0, 1 / 2] 0)\<lparr>consumed := 10\<rparr>)"
  by (simp add: handler_accepts [OF assms] overall_value_0 toFixed_7
      dimension_score_0 dimension_score_half upt_9 comp_def map_replicate_const
      del: One_nat_def upt_Suc)

text \<open>The appraisal when every value drawn is 0.\<close>

lemma appraisal_all_0:
  "(\<lparr>status = 200,
      json = JObj
        [(''scores'', JArr (map (\<lambda>i. JNum (Finite (dimension_score
            (draws (replay [] 0) (consumed (replay [] 0) + 1 + i))))) [0..<9])),
         (''overall'', JStr (toFixed (overall_value (draws (replay [] 0) (consumed (replay [] 0)))) 1)),
         (''reason'', JStr ''Automated local appraisal complete'')]\<rparr>,
    (replay [] 0)\<lparr>consumed := consumed (replay [] 0) + 10\<rparr>) =
   (\<lparr>status = 200,
      json = JObj [(''scores'', JArr (replicate 9 (JNum (Finite 7)))),
                   (''overall'', JStr ''7.0''),
                   (''reason'', JStr ''Automated local appraisal complete'')]\<rparr>,
    (replay [] 0)\<lparr>consumed := 10\<rparr>)"
  by (simp add: overall_value_0 toFixed_7 dimension_score_0 map_replicate_const
      del: One_nat_def upt_Suc)

section \<open>The claims\<close>

text \<open>
  C1. For every request whose \<open>nftContent\<close> is a non-empty string, and every random
  source that returns binary64 values in \<open>[0, 1)\<close>, the response has status 200 and its
  field \<open>scores\<close> is an array of exactly 9 integers, each between 7 and 10 inclusive.
\<close>

theorem scores_nine_integers_7_to_10:
  assumes c: "req_body ''nftContent'' = Some (JStr s)" and s: "s \<noteq> []"
    and v: "valid_draws g"
  shows "status (fst (handler req_body g)) = 200 \<and>
    (\<exists>ns. json_field (json (fst (handler req_body g))) ''scores'' =
            Some (JArr (map (\<lambda>n. JNum (Finite (of_int n))) ns)) \<and>
          length ns = 9 \<and> (\<forall>n \<in> set ns. 7 \<le> n \<and> n \<le> 10))"
proof -
  from c s have t: "ToBoolean (get_property req_body ''nftContent'')"
    by (simp add: get_property_def)
  define ns where "ns = map (\<lambda>i. \<lfloor>draws g (consumed g + 1 + i) * 4\<rfloor> + 7) [0..<9]"
  have d: "dimension_score (draws g j) = of_int (\<lfloor>draws g j * 4\<rfloor> + 7)"
    and lo: "0 \<le> \<lfloor>draws g j * 4\<rfloor>" and hi: "\<lfloor>draws g j * 4\<rfloor> \<le> 3" for j
    using v dimension_score_exact [of "draws g j"] by (simp_all add: valid_draws_def)
  have "json_field (json (fst (handler req_body g))) ''scores'' =
      Some (JArr (map (\<lambda>n. JNum (Finite (of_int n))) ns))"
    unfolding handler_accepts [OF t] ns_def by (simp add: d comp_def del: upt_Suc)
  moreover have "length ns = 9" by (simp add: ns_def)
  moreover have "\<forall>n \<in> set ns. 7 \<le> n \<and> n \<le> 10"
    unfolding ns_def using lo hi by (auto simp del: upt_Suc)
  moreover have "status (fst (handler req_body g)) = 200"
    by (simp add: handler_accepts [OF t])
  ultimately show ?thesis by blast
qed

theorem scores_nine_integers_7_to_10_witness:
  "[''nftContent'' \<mapsto> JStr ''ipfs://abc123''] ''nftContent'' = Some (JStr ''ipfs://abc123'') \<and>
   ''ipfs://abc123'' \<noteq> [] \<and> valid_draws (replay [] (1 / 2)) \<and>
   status (fst (handler [''nftContent'' \<mapsto> JStr ''ipfs://abc123''] (replay [] (1 / 2)))) = 200 \<and>
   (\<exists>ns. json_field (json (fst (handler [''nftContent'' \<mapsto> JStr ''ipfs://abc123''] (replay [] (1 / 2)))))
            ''scores'' = Some (JArr (map (\<lambda>n. JNum (Finite (of_int n))) ns)) \<and>
         length ns = 9 \<and> (\<forall>n \<in> set ns. 7 \<le> n \<and> n \<le> 10)) \<and>
   json_field (json (fst (handler [''nftContent'' \<mapsto> JStr ''ipfs://abc123''] (replay [] (1 / 2)))))
     ''scores'' = Some (JArr (replicate 9 (JNum (Finite 9))))"
proof -
  have c: "[''nftContent'' \<mapsto> JStr ''ipfs://abc123''] ''nftContent'' = Some (JStr ''ipfs://abc123'')"
    by simp
  have s: "''ipfs://abc123'' \<noteq> []" by simp
  have run: "json_field (json (fst (handler [''nftContent'' \<mapsto> JStr ''ipfs://abc123''] (replay [] (1 / 2)))))
     ''scores'' = Some (JArr (replicate 9 (JNum (Finite 9))))"
    by (simp add: run_all_half)
  from scores_nine_integers_7_to_10 [where req_body = "[''nftContent'' \<mapsto> JStr ''ipfs://abc123'']" and s = "''ipfs://abc123''",
      OF c s valid_draws_half]
    c s valid_draws_half run
  show ?thesis by blast
qed

text \<open>
  C2, as stated, asks that \<open>overall\<close> parse to a decimal in the half-open range
  \<open>[7.0, 10.0)\<close>. It fails: when \<^verbatim>\<open>Math.random()\<close> returns \<open>255 / 256\<close>, the sum is
  \<open>9.98828125\<close> (both operations are exact), and \<^verbatim>\<open>toFixed(1)\<close> rounds it to the string
  "10.0", whose value 10 is not below 10.
\<close>

theorem overall_can_be_10_counterexample:
  "[''nftContent'' \<mapsto> JStr ''x''] ''nftContent'' = Some (JStr ''x'') \<and> ''x'' \<noteq> [] \<and>
   valid_draws (replay [] (255 / 256)) \<and>
   json_field (json (fst (handler [''nftContent'' \<mapsto> JStr ''x''] (replay [] (255 / 256)))))
     ''overall'' = Some (JStr ''10.0'') \<and>
   parse_decimal ''10.0'' = Some 10 \<and> \<not> (10 :: rat) < 10"
proof -
  have "valid_draws (replay [] (255 / 256))"
    by (rule valid_draws_replay) (simp_all add: is_double_255_256)
  moreover have "json_field (json (fst (handler [''nftContent'' \<mapsto> JStr ''x''] (replay [] (255 / 256)))))
     ''overall'' = Some (JStr ''10.0'')"
    by (simp add: handler_accepts replay_def overall_value_255_256 toFixed_2557_256
        del: One_nat_def)
  ultimately show ?thesis by (simp add: parse_10_0)
qed

text \<open>
  C2, amended. For every request whose \<open>nftContent\<close> is a non-empty string, and every
  random source that returns binary64 values in \<open>[0, 1)\<close>, the field \<open>overall\<close> is a
  string that parses to a decimal in the closed range \<open>[7.0, 10.0]\<close> and has exactly one
  digit after the point.
\<close>

theorem overall_between_7_and_10_inclusive:
  assumes c: "req_body ''nftContent'' = Some (JStr s)" and s: "s \<noteq> []"
    and v: "valid_draws g"
  shows "\<exists>t x. json_field (json (fst (handler req_body g))) ''overall'' = Some (JStr t) \<and>
    parse_decimal t = Some x \<and> 7 \<le> x \<and> x \<le> 10 \<and> fraction_digits t = 1"
proof -
  from c s have t: "ToBoolean (get_property req_body ''nftContent'')"
    by (simp add: get_property_def)
  define r where "r = draws g (consumed g)"
  from v have r: "0 \<le> r" "r < 1" by (simp_all add: valid_draws_def r_def)
  note b = overall_value_bounds [OF r]
  from b(1) have nn: "0 \<le> overall_value r" by simp
  let ?t = "toFixed (overall_value r) 1"
  let ?x = "of_int \<lfloor>overall_value r * 10 + 1 / 2\<rfloor> / 10 :: rat"
  have "json_field (json (fst (handler req_body g))) ''overall'' = Some (JStr ?t)"
    by (simp add: handler_accepts [OF t] r_def)
  moreover have "parse_decimal ?t = Some ?x" by (rule toFixed_1_parse(1) [OF nn])
  moreover have "fraction_digits ?t = 1" by (rule toFixed_1_parse(2) [OF nn])
  moreover have "7 \<le> ?x" "?x \<le> 10" by (rule round_tenths_bounds [OF b])+
  ultimately show ?thesis by blast
qed

theorem overall_between_7_and_10_inclusive_witness:
  "[''nftContent'' \<mapsto> JStr ''x''] ''nftContent'' = Some (JStr ''x'') \<and> ''x'' \<noteq> [] \<and>
   valid_draws (replay [] (1 / 2)) \<and>
   (\<exists>t x. json_field (json (fst (handler [''nftContent'' \<mapsto> JStr ''x''] (replay [] (1 / 2)))))
            ''overall'' = Some (JStr t) \<and>
          parse_decimal t = Some x \<and> 7 \<le> x \<and> x \<le> 10 \<and> fraction_digits t = 1) \<and>
   json_field (json (fst (handler [''nftContent'' \<mapsto> JStr ''x''] (replay [] (1 / 2)))))
     ''overall'' = Some (JStr ''8.5'')"
proof -
  have c: "[''nftContent'' \<mapsto> JStr ''x''] ''nftContent'' = Some (JStr ''x'')" by simp
  have s: "''x'' \<noteq> []" by simp
  have run: "json_field (json (fst (handler [''nftContent'' \<mapsto> JStr ''x''] (replay [] (1 / 2)))))
     ''overall'' = Some (JStr ''8.5'')"
    by (simp add: run_all_half)
  from overall_between_7_and_10_inclusive [where req_body = "[''nftContent'' \<mapsto> JStr ''x'']" and s = "''x''",
      OF c s valid_draws_half]
    c s valid_draws_half run
  show ?thesis by blast
qed

text \<open>
  C3, as stated, says that the request is rejected if and only if \<open>nftContent\<close> is
  absent, null or the empty string. It fails in the "only if" direction: the body
  \<^verbatim>\<open>{"nftContent": 0}\<close> holds a value that is none of the three, and it is rejected with
  status 400 and the same error body, because \<^verbatim>\<open>!0\<close> is true.
\<close>

theorem zero_is_rejected_counterexample:
  "status (fst (handler [''nftContent'' \<mapsto> JNum (Finite 0)] (replay [] 0))) = 400 \<and>
   json (fst (handler [''nftContent'' \<mapsto> JNum (Finite 0)] (replay [] 0))) =
     JObj [(''error'', JStr ''NFT content required'')] \<and>
   [''nftContent'' \<mapsto> JNum (Finite 0)] ''nftContent'' \<noteq> None \<and>
   [''nftContent'' \<mapsto> JNum (Finite 0)] ''nftContent'' \<noteq> Some JNull \<and>
   [''nftContent'' \<mapsto> JNum (Finite 0)] ''nftContent'' \<noteq> Some (JStr [])"
  by (simp add: handler_rejects)

text \<open>
  C3, amended. The request is rejected with status 400 if and only if \<open>nftContent\<close> is
  falsy: absent (it then reads as \<^verbatim>\<open>undefined\<close>), null, the empty string, \<^verbatim>\<open>false\<close>, the
  number 0 or NaN. A rejection carries the exact body
  \<^verbatim>\<open>{"error": "NFT content required"}\<close>; a request that is not rejected is answered with
  status 200; and no non-empty string is rejected.
\<close>

theorem rejected_iff_falsy:
  "(status (fst (handler req_body g)) = 400 \<longleftrightarrow>
      get_property req_body ''nftContent'' = JUndefined \<or>
      get_property req_body ''nftContent'' = JNull \<or>
      get_property req_body ''nftContent'' = JStr [] \<or>
      get_property req_body ''nftContent'' = JBool False \<or>
      get_property req_body ''nftContent'' = JNum (Finite 0) \<or>
      get_property req_body ''nftContent'' = JNum NaN) \<and>
   (req_body ''nftContent'' = None \<longrightarrow> get_property req_body ''nftContent'' = JUndefined) \<and>
   (status (fst (handler req_body g)) = 400 \<longrightarrow>
      json (fst (handler req_body g)) = JObj [(''error'', JStr ''NFT content required'')]) \<and>
   (status (fst (handler req_body g)) \<noteq> 400 \<longrightarrow> status (fst (handler req_body g)) = 200) \<and>
   (\<forall>s. s \<noteq> [] \<and> req_body ''nftContent'' = Some (JStr s) \<longrightarrow>
      status (fst (handler req_body g)) = 200)"
proof (intro conjI allI impI)
  show "status (fst (handler req_body g)) = 400 \<longleftrightarrow>
      get_property req_body ''nftContent'' = JUndefined \<or>
      get_property req_body ''nftContent'' = JNull \<or>
      get_property req_body ''nftContent'' = JStr [] \<or>
      get_property req_body ''nftContent'' = JBool False \<or>
      get_property req_body ''nftContent'' = JNum (Finite 0) \<or>
      get_property req_body ''nftContent'' = JNum NaN"
    unfolding status_400_iff by (rule falsy_values)
next
  assume "req_body ''nftContent'' = None"
  then show "get_property req_body ''nftContent'' = JUndefined"
    by (simp add: get_property_def)
next
  assume "status (fst (handler req_body g)) = 400"
  then have "\<not> ToBoolean (get_property req_body ''nftContent'')" by (simp add: status_400_iff)
  then show "json (fst (handler req_body g)) = JObj [(''error'', JStr ''NFT content required'')]"
    by (simp add: handler_rejects)
next
  assume "status (fst (handler req_body g)) \<noteq> 400"
  then show "status (fst (handler req_body g)) = 200"
    by (simp add: status_400_iff status_200_iff)
next
  fix s
  assume "s \<noteq> [] \<and> req_body ''nftContent'' = Some (JStr s)"
  then have "ToBoolean (get_property req_body ''nftContent'')" by (simp add: get_property_def)
  then show "status (fst (handler req_body g)) = 200" by (simp add: status_200_iff)
qed

theorem rejected_iff_falsy_witness:
  "status (fst (handler Map.empty (replay [] 0))) = 400 \<and>
   json (fst (handler Map.empty (replay [] 0))) = JObj [(''error'', JStr ''NFT content required'')] \<and>
   status (fst (handler [''nftContent'' \<mapsto> JBool False] (replay [] 0))) = 400 \<and>
   status (fst (handler [''nftContent'' \<mapsto> JStr ''ipfs://abc123''] (replay [] 0))) = 200"
proof -
  note a = rejected_iff_falsy [of Map.empty "replay [] 0"]
  note b = rejected_iff_falsy [of "[''nftContent'' \<mapsto> JBool False]" "replay [] 0"]
  note c = rejected_iff_falsy [of "[''nftContent'' \<mapsto> JStr ''ipfs://abc123'']" "replay [] 0"]
  from a [THEN conjunct1] have 1: "status (fst (handler Map.empty (replay [] 0))) = 400"
    by simp
  from a 1 have 2: "json (fst (handler Map.empty (replay [] 0))) =
    JObj [(''error'', JStr ''NFT content required'')]" by blast
  from b [THEN conjunct1]
  have 3: "status (fst (handler [''nftContent'' \<mapsto> JBool False] (replay [] 0))) = 400"
    by simp
  have m: "[''nftContent'' \<mapsto> JStr ''ipfs://abc123''] ''nftContent'' = Some (JStr ''ipfs://abc123'')"
    and n: "''ipfs://abc123'' \<noteq> []" by simp_all
  from c m n
  have 4: "status (fst (handler [''nftContent'' \<mapsto> JStr ''ipfs://abc123''] (replay [] 0))) = 200"
    by blast
  from 1 2 3 4 show ?thesis by blast
qed

text \<open>
  C4. On a request whose \<open>nftContent\<close> is absent, null or the empty string, the handler
  returns the random source exactly as it received it (no value is drawn: the count of
  values consumed is unchanged), and the response is the status 400 error object, which
  has no \<open>scores\<close>, \<open>overall\<close> or \<open>reason\<close> field.
\<close>

theorem rejection_draws_nothing:
  assumes "req_body ''nftContent'' = None \<or> req_body ''nftContent'' = Some JNull \<or>
    req_body ''nftContent'' = Some (JStr [])"
  shows "snd (handler req_body g) = g \<and>
    consumed (snd (handler req_body g)) = consumed g \<and>
    fst (handler req_body g) =
      \<lparr>status = 400, json = JObj [(''error'', JStr ''NFT content required'')]\<rparr> \<and>
    json_field (json (fst (handler req_body g))) ''scores'' = None \<and>
    json_field (json (fst (handler req_body g))) ''overall'' = None \<and>
    json_field (json (fst (handler req_body g))) ''reason'' = None"
proof -
  from assms have "\<not> ToBoolean (get_property req_body ''nftContent'')"
    by (auto simp add: get_property_def)
  then show ?thesis by (simp add: handler_rejects)
qed

theorem rejection_draws_nothing_witness:
  "snd (handler [''nftContent'' \<mapsto> JStr []] (replay [1 / 4] (1 / 2))) = replay [1 / 4] (1 / 2) \<and>
   consumed (snd (handler [''nftContent'' \<mapsto> JStr []] (replay [1 / 4] (1 / 2)))) = 0 \<and>
   fst (handler [''nftContent'' \<mapsto> JStr []] (replay [1 / 4] (1 / 2))) =
      \<lparr>status = 400, json = JObj [(''error'', JStr ''NFT content required'')]\<rparr> \<and>
   snd (handler Map.empty (replay [1 / 4] (1 / 2))) = replay [1 / 4] (1 / 2) \<and>
   snd (handler [''nftContent'' \<mapsto> JNull] (replay [1 / 4] (1 / 2))) = replay [1 / 4] (1 / 2)"
  using rejection_draws_nothing [of "[''nftContent'' \<mapsto> JStr []]" "replay [1 / 4] (1 / 2)"]
    rejection_draws_nothing [of Map.empty "replay [1 / 4] (1 / 2)"]
    rejection_draws_nothing [of "[''nftContent'' \<mapsto> JNull]" "replay [1 / 4] (1 / 2)"]
  by (simp add: replay_def)

text \<open>
  C5. For every successful call (status 200), the field \<open>reason\<close> of the response is
  the string "Automated local appraisal complete", whatever the request body and whatever
  the random source returns.
\<close>

theorem reason_is_fixed:
  assumes "status (fst (handler req_body g)) = 200"
  shows "json_field (json (fst (handler req_body g))) ''reason'' =
    Some (JStr ''Automated local appraisal complete'')"
proof (cases "ToBoolean (get_property req_body ''nftContent'')")
  case True
  then show ?thesis by (simp add: handler_accepts)
next
  case False
  with assms show ?thesis by (simp add: handler_rejects)
qed

theorem reason_is_fixed_witness:
  "status (fst (handler [''nftContent'' \<mapsto> JStr ''ipfs://abc123''] (replay [] (1 / 2)))) = 200 \<and>
   json_field (json (fst (handler [''nftContent'' \<mapsto> JStr ''ipfs://abc123''] (replay [] (1 / 2)))))
     ''reason'' = Some (JStr ''Automated local appraisal complete'')"
proof -
  have ok: "status (fst (handler [''nftContent'' \<mapsto> JStr ''ipfs://abc123''] (replay [] (1 / 2)))) = 200"
    by (simp add: handler_accepts)
  from ok reason_is_fixed [OF ok] show ?thesis by (rule conjI)
qed

text \<open>
  C6. The map from the value drawn to a dimension score, on the binary64 values of
  \<open>[0, 1)\<close>, takes the values 7, 8, 9 and 10 and no other, and the values drawn that give
  each score are those of one interval of length \<open>1 / 4\<close>: \<open>[0, 1/4)\<close> gives 7,
  \<open>[1/4, 1/2)\<close> gives 8, \<open>[1/2, 3/4)\<close> gives 9 and \<open>[3/4, 1)\<close> gives 10. The callback
  that \<^verbatim>\<open>map\<close> runs for each of the 9 elements applies this map to a value it draws itself.
  And the response to a request that passes validation holds exactly 9 scores, score \<open>i\<close>
  being this map applied to a draw of its own (draw \<open>n + 1 + i\<close> when \<open>n\<close> values were
  consumed before the call): each of the 9 is 7, 8, 9 or 10 according to the quarter its
  draw lies in.
\<close>

theorem dimension_score_quarter_intervals:
  assumes d: "is_double r" and r0: "0 \<le> r" and r1: "r < 1"
    and t: "ToBoolean (get_property req_body ''nftContent'')" and v: "valid_draws g"
  shows "dimension_score r \<in> {7, 8, 9, 10} \<and>
    (dimension_score r = 7 \<longleftrightarrow> 0 \<le> r \<and> r < 1 / 4) \<and>
    (dimension_score r = 8 \<longleftrightarrow> 1 / 4 \<le> r \<and> r < 1 / 2) \<and>
    (dimension_score r = 9 \<longleftrightarrow> 1 / 2 \<le> r \<and> r < 3 / 4) \<and>
    (dimension_score r = 10 \<longleftrightarrow> 3 / 4 \<le> r \<and> r < 1) \<and>
    dimension_score 0 = 7 \<and> dimension_score (1 / 4) = 8 \<and>
    dimension_score (1 / 2) = 9 \<and> dimension_score (3 / 4) = 10 \<and>
    score_callback x g =
      (JNum (Finite (dimension_score (draws g (consumed g)))), g\<lparr>consumed := Suc (consumed g)\<rparr>) \<and>
    (\<exists>ss. json_field (json (fst (handler req_body g))) ''scores'' = Some (JArr ss) \<and>
       length ss = 9 \<and>
       (\<forall>i<9.
          ss ! i = JNum (Finite (dimension_score (draws g (consumed g + 1 + i)))) \<and>
          ss ! i \<in> {JNum (Finite 7), JNum (Finite 8), JNum (Finite 9), JNum (Finite 10)} \<and>
          (ss ! i = JNum (Finite 7) \<longleftrightarrow>
             0 \<le> draws g (consumed g + 1 + i) \<and> draws g (consumed g + 1 + i) < 1 / 4) \<and>
          (ss ! i = JNum (Finite 8) \<longleftrightarrow>
             1 / 4 \<le> draws g (consumed g + 1 + i) \<and> draws g (consumed g + 1 + i) < 1 / 2) \<and>
          (ss ! i = JNum (Finite 9) \<longleftrightarrow>
             1 / 2 \<le> draws g (consumed g + 1 + i) \<and> draws g (consumed g + 1 + i) < 3 / 4) \<and>
          (ss ! i = JNum (Finite 10) \<longleftrightarrow>
             3 / 4 \<le> draws g (consumed g + 1 + i) \<and> draws g (consumed g + 1 + i) < 1)))"
proof -
  note one = dimension_score_intervals [OF d r0 r1]
  define ss where
    "ss = map (\<lambda>i. JNum (Finite (dimension_score (draws g (consumed g + 1 + i))))) [0..<9]"
  have field: "json_field (json (fst (handler req_body g))) ''scores'' = Some (JArr ss)"
    unfolding handler_accepts [OF t] ss_def by simp
  have len: "length ss = 9" by (simp add: ss_def)
  have each: "ss ! i = JNum (Finite (dimension_score (draws g (consumed g + 1 + i)))) \<and>
          ss ! i \<in> {JNum (Finite 7), JNum (Finite 8), JNum (Finite 9), JNum (Finite 10)} \<and>
          (ss ! i = JNum (Finite 7) \<longleftrightarrow>
             0 \<le> draws g (consumed g + 1 + i) \<and> draws g (consumed g + 1 + i) < 1 / 4) \<and>
          (ss ! i = JNum (Finite 8) \<longleftrightarrow>
             1 / 4 \<le> draws g (consumed g + 1 + i) \<and> draws g (consumed g + 1 + i) < 1 / 2) \<and>
          (ss ! i = JNum (Finite 9) \<longleftrightarrow>
             1 / 2 \<le> draws g (consumed g + 1 + i) \<and> draws g (consumed g + 1 + i) < 3 / 4) \<and>
          (ss ! i = JNum (Finite 10) \<longleftrightarrow>
             3 / 4 \<le> draws g (consumed g + 1 + i) \<and> draws g (consumed g + 1 + i) < 1)"
    if i: "i < 9" for i
  proof -
    define q where "q = draws g (consumed g + 1 + i)"
    from v have "is_double q" "0 \<le> q" "q < 1" by (simp_all add: valid_draws_def q_def)
    note iv = dimension_score_intervals [OF this]
    from i have nth: "ss ! i = JNum (Finite (dimension_score q))"
      unfolding ss_def q_def by (simp del: upt_Suc)
    from iv(1) have "JNum (Finite (dimension_score q)) \<in>
        {JNum (Finite 7), JNum (Finite 8), JNum (Finite 9), JNum (Finite 10)}" by auto
    then show ?thesis
      unfolding nth q_def [symmetric] using iv(2-5) by simp
  qed
  from field len each
  have "\<exists>ss. json_field (json (fst (handler req_body g))) ''scores'' = Some (JArr ss) \<and>
       length ss = 9 \<and>
       (\<forall>i<9.
          ss ! i = JNum (Finite (dimension_score (draws g (consumed g + 1 + i)))) \<and>
          ss ! i \<in> {JNum (Finite 7), JNum (Finite 8), JNum (Finite 9), JNum (Finite 10)} \<and>
          (ss ! i = JNum (Finite 7) \<longleftrightarrow>
             0 \<le> draws g (consumed g + 1 + i) \<and> draws g (consumed g + 1 + i) < 1 / 4) \<and>
          (ss ! i = JNum (Finite 8) \<longleftrightarrow>
             1 / 4 \<le> draws g (consumed g + 1 + i) \<and> draws g (consumed g + 1 + i) < 1 / 2) \<and>
          (ss ! i = JNum (Finite 9) \<longleftrightarrow>
             1 / 2 \<le> draws g (consumed g + 1 + i) \<and> draws g (consumed g + 1 + i) < 3 / 4) \<and>
          (ss ! i = JNum (Finite 10) \<longleftrightarrow>
             3 / 4 \<le> draws g (consumed g + 1 + i) \<and> draws g (consumed g + 1 + i) < 1))"
    by blast
  with one show ?thesis
    by (simp only: dimension_score_0 dimension_score_quarter dimension_score_half
        dimension_score_three_quarters score_callback_draw simp_thms)
qed

theorem dimension_score_quarter_intervals_witness:
  "is_double (5 / 8) \<and> (0::rat) \<le> 5 / 8 \<and> (5 / 8 :: rat) < 1 \<and>
   ToBoolean (get_property [''nftContent'' \<mapsto> JStr ''x''] ''nftContent'') \<and>
   valid_draws (replay [0, 1 / 4, 1 / 2, 3 / 4] 0) \<and>
   dimension_score (5 / 8) = 9 \<and> dimension_score (5 / 8) \<noteq> 7 \<and>
   dimension_score (5 / 8) \<noteq> 8 \<and> dimension_score (5 / 8) \<noteq> 10 \<and>
   (\<exists>ss. json_field (json (fst (handler [''nftContent'' \<mapsto> JStr ''x'']
            (replay [0, 1 / 4, 1 / 2, 3 / 4] 0)))) ''scores'' = Some (JArr ss) \<and>
      length ss = 9 \<and> ss ! 0 = JNum (Finite 8) \<and> ss ! 1 = JNum (Finite 9) \<and>
      ss ! 2 = JNum (Finite 10) \<and> ss ! 3 = JNum (Finite 7))"
proof -
  have d: "is_double (5 / 8)" using is_double_dyadic [of 5 3] by simp
  have r0: "(0::rat) \<le> 5 / 8" and r1: "(5 / 8 :: rat) < 1" by simp_all
  note th = dimension_score_quarter_intervals [OF d r0 r1 truthy_x valid_draws_quarters, of JNull]
  from th have a: "dimension_score (5 / 8) = 9 \<and> dimension_score (5 / 8) \<noteq> 7 \<and>
      dimension_score (5 / 8) \<noteq> 8 \<and> dimension_score (5 / 8) \<noteq> 10"
    by simp
  from th obtain ss where ss:
    "json_field (json (fst (handler [''nftContent'' \<mapsto> JStr ''x'']
        (replay [0, 1 / 4, 1 / 2, 3 / 4] 0)))) ''scores'' = Some (JArr ss)"
    "length ss = 9"
    "\<forall>i<9. ss ! i = JNum (Finite (dimension_score
        (draws (replay [0, 1 / 4, 1 / 2, 3 / 4] 0)
          (consumed (replay [0, 1 / 4, 1 / 2, 3 / 4] 0) + 1 + i))))"
    by blast
  from ss(3) have "ss ! 0 = JNum (Finite 8)" "ss ! 1 = JNum (Finite 9)"
    "ss ! 2 = JNum (Finite 10)" "ss ! 3 = JNum (Finite 7)"
    by (simp_all add: dimension_score_0 dimension_score_quarter dimension_score_half
        dimension_score_three_quarters)
  with ss(1,2) a d r0 r1 truthy_x valid_draws_quarters show ?thesis by blast
qed

text \<open>
  C7, as stated, has the 9 scores consume the first 9 values drawn and \<open>overall\<close> the tenth.
  It fails: \<open>mockScore\<close> is computed before the object literal is built. When the first
  value drawn is \<open>1/2\<close> and the others 0, the response has \<open>overall\<close> "8.5" and nine scores
  7, whereas the stated order would give first score 9 and \<open>overall\<close> "7.0".
\<close>

theorem scores_drawn_first_counterexample:
  "json_field (json (fst (handler [''nftContent'' \<mapsto> JStr ''x''] (replay [1 / 2] 0)))) ''scores'' \<noteq>
     Some (JArr (map (\<lambda>i. JNum (Finite (dimension_score
        (draws (replay [1 / 2] 0) (consumed (replay [1 / 2] 0) + i))))) [0..<9])) \<and>
   json_field (json (fst (handler [''nftContent'' \<mapsto> JStr ''x''] (replay [1 / 2] 0)))) ''overall'' \<noteq>
     Some (JStr (toFixed (overall_value
        (draws (replay [1 / 2] 0) (consumed (replay [1 / 2] 0) + 9))) 1))"
  by (simp add: run_half_then_0 upt_9 replicate_9 dimension_score_half
      overall_value_0 toFixed_7 del: One_nat_def upt_Suc)

text \<open>
  C7, amended. On every request that passes validation, the handler first draws the value
  that \<open>overall\<close> is computed from, then draws the 9 values of the scores in index order,
  and attaches the fixed rationale: with \<open>n\<close> values consumed before the call, \<open>overall\<close>
  comes from value \<open>n\<close>, score \<open>i\<close> from value \<open>n + 1 + i\<close>, and \<open>n + 10\<close> values are
  consumed after it.
\<close>

theorem overall_drawn_first_then_scores:
  assumes "ToBoolean (get_property req_body ''nftContent'')"
  shows "json_field (json (fst (handler req_body g))) ''overall'' =
      Some (JStr (toFixed (overall_value (draws g (consumed g))) 1)) \<and>
    json_field (json (fst (handler req_body g))) ''scores'' =
      Some (JArr (map (\<lambda>i. JNum (Finite (dimension_score (draws g (consumed g + 1 + i))))) [0..<9])) \<and>
    json_field (json (fst (handler req_body g))) ''reason'' =
      Some (JStr ''Automated local appraisal complete'') \<and>
    snd (handler req_body g) = g\<lparr>consumed := consumed g + 10\<rparr>"
proof -
  note run = handler_accepts [OF assms, of g]
  have "json_field (json (fst (handler req_body g))) ''overall'' =
      Some (JStr (toFixed (overall_value (draws g (consumed g))) 1))"
    unfolding run by simp
  moreover have "json_field (json (fst (handler req_body g))) ''scores'' =
      Some (JArr (map (\<lambda>i. JNum (Finite (dimension_score (draws g (consumed g + 1 + i))))) [0..<9]))"
    unfolding run by simp
  moreover have "json_field (json (fst (handler req_body g))) ''reason'' =
      Some (JStr ''Automated local appraisal complete'')"
    unfolding run by simp
  moreover have "snd (handler req_body g) = g\<lparr>consumed := consumed g + 10\<rparr>"
    unfolding run by simp
  ultimately show ?thesis by blast
qed

theorem overall_drawn_first_then_scores_witness:
  "ToBoolean (get_property [''nftContent'' \<mapsto> JStr ''x''] ''nftContent'') \<and>
   json_field (json (fst (handler [''nftContent'' \<mapsto> JStr ''x''] (replay [1 / 2] 0)))) ''overall'' =
     Some (JStr (toFixed (overall_value (1 / 2)) 1)) \<and>
   json_field (json (fst (handler [''nftContent'' \<mapsto> JStr ''x''] (replay [1 / 2] 0)))) ''scores'' =
     Some (JArr (replicate 9 (JNum (Finite (dimension_score 0))))) \<and>
   consumed (snd (handler [''nftContent'' \<mapsto> JStr ''x''] (replay [1 / 2] 0))) = 10"
  using overall_drawn_first_then_scores [OF truthy_x, of "replay [1 / 2] 0"]
  by (simp add: map_replicate_const del: One_nat_def upt_Suc)

text \<open>
  C8. On a request that passes validation, \<open>overall\<close> is a function of its own draw
  alone (draw \<open>n\<close> when \<open>n\<close> values were consumed before the call) and the scores are a
  function of the 9 later draws alone. So two runs that agree on the draw of \<open>overall\<close>
  give the same \<open>overall\<close>, whatever the draws of the scores, and two runs that agree on
  the 9 draws of the scores give the same scores, whatever the draw of \<open>overall\<close>. And
  \<open>overall\<close> is no function of the scores: there are two runs with the same score draws
  and the same 9 scores but different \<open>overall\<close>, and two runs with the same \<open>overall\<close>
  draw and \<open>overall\<close> but different scores.
\<close>

theorem overall_independent_of_scores:
  assumes t: "ToBoolean (get_property req_body ''nftContent'')"
  shows "json_field (json (fst (handler req_body g))) ''overall'' =
      Some (JStr (toFixed (overall_value (draws g (consumed g))) 1)) \<and>
    json_field (json (fst (handler req_body g))) ''scores'' =
      Some (JArr (map (\<lambda>r. JNum (Finite (dimension_score r)))
        (map (\<lambda>i. draws g (consumed g + 1 + i)) [0..<9]))) \<and>
    (draws g' (consumed g') = draws g (consumed g) \<longrightarrow>
       json_field (json (fst (handler req_body g'))) ''overall'' =
         json_field (json (fst (handler req_body g))) ''overall'') \<and>
    (map (\<lambda>i. draws g' (consumed g' + 1 + i)) [0..<9] =
       map (\<lambda>i. draws g (consumed g + 1 + i)) [0..<9] \<longrightarrow>
       json_field (json (fst (handler req_body g'))) ''scores'' =
         json_field (json (fst (handler req_body g))) ''scores'') \<and>
    (\<exists>g1 g2. valid_draws g1 \<and> valid_draws g2 \<and>
       map (\<lambda>i. draws g1 (consumed g1 + 1 + i)) [0..<9] =
         map (\<lambda>i. draws g2 (consumed g2 + 1 + i)) [0..<9] \<and>
       json_field (json (fst (handler req_body g1))) ''scores'' =
         json_field (json (fst (handler req_body g2))) ''scores'' \<and>
       json_field (json (fst (handler req_body g1))) ''overall'' \<noteq>
         json_field (json (fst (handler req_body g2))) ''overall'') \<and>
    (\<exists>g1 g2. valid_draws g1 \<and> valid_draws g2 \<and>
       draws g1 (consumed g1) = draws g2 (consumed g2) \<and>
       json_field (json (fst (handler req_body g1))) ''overall'' =
         json_field (json (fst (handler req_body g2))) ''overall'' \<and>
       json_field (json (fst (handler req_body g1))) ''scores'' \<noteq>
         json_field (json (fst (handler req_body g2))) ''scores'')"
proof -
  have overall: "json_field (json (fst (handler req_body h))) ''overall'' =
      Some (JStr (toFixed (overall_value (draws h (consumed h))) 1))" for h
    unfolding handler_accepts [OF t] by simp
  have scores: "json_field (json (fst (handler req_body h))) ''scores'' =
      Some (JArr (map (\<lambda>r. JNum (Finite (dimension_score r)))
        (map (\<lambda>i. draws h (consumed h + 1 + i)) [0..<9])))" for h
    unfolding handler_accepts [OF t] by (simp add: comp_def del: upt_Suc)
  have own: "draws g' (consumed g') = draws g (consumed g) \<longrightarrow>
       json_field (json (fst (handler req_body g'))) ''overall'' =
         json_field (json (fst (handler req_body g))) ''overall''"
    unfolding overall by simp
  have others: "map (\<lambda>i. draws g' (consumed g' + 1 + i)) [0..<9] =
       map (\<lambda>i. draws g (consumed g + 1 + i)) [0..<9] \<longrightarrow>
       json_field (json (fst (handler req_body g'))) ''scores'' =
         json_field (json (fst (handler req_body g))) ''scores''"
    unfolding scores by simp
  have m: "map (\<lambda>i. draws (replay [1 / 2] 0) (consumed (replay [1 / 2] 0) + 1 + i)) [0..<9] =
         map (\<lambda>i. draws (replay [] 0) (consumed (replay [] 0) + 1 + i)) [0..<9]"
    by (simp del: upt_Suc)
  have "json_field (json (fst (handler req_body (replay [1 / 2] 0)))) ''scores'' =
         json_field (json (fst (handler req_body (replay [] 0)))) ''scores''"
    by (simp add: run_half_then_0 [OF t] run_all_0 [OF t])
  moreover have "json_field (json (fst (handler req_body (replay [1 / 2] 0)))) ''overall'' \<noteq>
         json_field (json (fst (handler req_body (replay [] 0)))) ''overall''"
    by (simp add: run_half_then_0 [OF t] run_all_0 [OF t])
  ultimately have not_function: "\<exists>g1 g2. valid_draws g1 \<and> valid_draws g2 \<and>
       map (\<lambda>i. draws g1 (consumed g1 + 1 + i)) [0..<9] =
         map (\<lambda>i. draws g2 (consumed g2 + 1 + i)) [0..<9] \<and>
       json_field (json (fst (handler req_body g1))) ''scores'' =
         json_field (json (fst (handler req_body g2))) ''scores'' \<and>
       json_field (json (fst (handler req_body g1))) ''overall'' \<noteq>
         json_field (json (fst (handler req_body g2))) ''overall''"
    using valid_draws_half_then_0 valid_draws_0 m by blast
  have d: "draws (replay [0, 1 / 2] 0) (consumed (replay [0, 1 / 2] 0)) =
      draws (replay [] 0) (consumed (replay [] 0))" by simp
  have "json_field (json (fst (handler req_body (replay [0, 1 / 2] 0)))) ''overall'' =
         json_field (json (fst (handler req_body (replay [] 0)))) ''overall''"
    by (simp add: run_0_then_half [OF t] run_all_0 [OF t])
  moreover have "json_field (json (fst (handler req_body (replay [0, 1 / 2] 0)))) ''scores'' \<noteq>
         json_field (json (fst (handler req_body (replay [] 0)))) ''scores''"
    by (simp add: run_0_then_half [OF t] run_all_0 [OF t] replicate_9)
  ultimately have vary: "\<exists>g1 g2. valid_draws g1 \<and> valid_draws g2 \<and>
       draws g1 (consumed g1) = draws g2 (consumed g2) \<and>
       json_field (json (fst (handler req_body g1))) ''overall'' =
         json_field (json (fst (handler req_body g2))) ''overall'' \<and>
       json_field (json (fst (handler req_body g1))) ''scores'' \<noteq>
         json_field (json (fst (handler req_body g2))) ''scores''"
    using valid_draws_0_then_half valid_draws_0 d by blast
  from overall [of g] scores [of g] own others not_function vary show ?thesis by blast
qed

theorem overall_independent_of_scores_witness:
  "ToBoolean (get_property [''nftContent'' \<mapsto> JStr ''x''] ''nftContent'') \<and>
   draws (replay [0, 1 / 2] 0) (consumed (replay [0, 1 / 2] 0)) =
     draws (replay [] 0) (consumed (replay [] 0)) \<and>
   json_field (json (fst (handler [''nftContent'' \<mapsto> JStr ''x''] (replay [0, 1 / 2] 0)))) ''overall'' =
     json_field (json (fst (handler [''nftContent'' \<mapsto> JStr ''x''] (replay [] 0)))) ''overall'' \<and>
   json_field (json (fst (handler [''nftContent'' \<mapsto> JStr ''x''] (replay [0, 1 / 2] 0)))) ''scores'' \<noteq>
     json_field (json (fst (handler [''nftContent'' \<mapsto> JStr ''x''] (replay [] 0)))) ''scores'' \<and>
   map (\<lambda>i. draws (replay [1 / 2] 0) (consumed (replay [1 / 2] 0) + 1 + i)) [0..<9] =
     map (\<lambda>i. draws (replay [] 0) (consumed (replay [] 0) + 1 + i)) [0..<9] \<and>
   json_field (json (fst (handler [''nftContent'' \<mapsto> JStr ''x''] (replay [1 / 2] 0)))) ''scores'' =
     json_field (json (fst (handler [''nftContent'' \<mapsto> JStr ''x''] (replay [] 0)))) ''scores'' \<and>
   json_field (json (fst (handler [''nftContent'' \<mapsto> JStr ''x''] (replay [1 / 2] 0)))) ''overall'' \<noteq>
     json_field (json (fst (handler [''nftContent'' \<mapsto> JStr ''x''] (replay [] 0)))) ''overall''"
proof -
  have same: "draws (replay [0, 1 / 2] 0) (consumed (replay [0, 1 / 2] 0)) =
     draws (replay [] 0) (consumed (replay [] 0))"
    by simp
  have differ: "json_field (json (fst (handler [''nftContent'' \<mapsto> JStr ''x''] (replay [0, 1 / 2] 0)))) ''scores'' \<noteq>
     json_field (json (fst (handler [''nftContent'' \<mapsto> JStr ''x''] (replay [] 0)))) ''scores''"
    by (simp add: run_0_then_half run_all_0 replicate_9)
  have others: "map (\<lambda>i. draws (replay [1 / 2] 0) (consumed (replay [1 / 2] 0) + 1 + i)) [0..<9] =
     map (\<lambda>i. draws (replay [] 0) (consumed (replay [] 0) + 1 + i)) [0..<9]"
    by (simp del: upt_Suc)
  have differ': "json_field (json (fst (handler [''nftContent'' \<mapsto> JStr ''x''] (replay [1 / 2] 0)))) ''overall'' \<noteq>
     json_field (json (fst (handler [''nftContent'' \<mapsto> JStr ''x''] (replay [] 0)))) ''overall''"
    by (simp add: run_half_then_0 run_all_0)
  from overall_independent_of_scores [OF truthy_x, of "replay [] 0" "replay [0, 1 / 2] 0"]
    overall_independent_of_scores [OF truthy_x, of "replay [] 0" "replay [1 / 2] 0"]
    same differ others differ' truthy_x
  show ?thesis by blast
qed


text \<open>
  C10. Validation is JavaScript truthiness of \<open>nftContent\<close>: a falsy value gives the
  status 400 error and leaves the random source alone; a truthy value of any type gives
  the whole appraisal, that is status 200, the 9 scores computed from draws
  \<open>n + 1, \<dots>, n + 9\<close>, \<open>overall\<close> computed from draw \<open>n\<close>, the fixed rationale, and 10
  values consumed. Falsy are \<^verbatim>\<open>undefined\<close>, null, the empty string, 0, \<^verbatim>\<open>false\<close> and NaN;
  truthy are every non-zero number, every object, every array, \<^verbatim>\<open>true\<close> and every
  non-empty string, a single space included.
\<close>

theorem validation_is_truthiness:
  "(\<not> ToBoolean (get_property req_body ''nftContent'') \<longrightarrow>
      handler req_body g =
        (\<lparr>status = 400, json = JObj [(''error'', JStr ''NFT content required'')]\<rparr>, g)) \<and>
   (ToBoolean (get_property req_body ''nftContent'') \<longrightarrow>
      handler req_body g =
        (\<lparr>status = 200,
          json = JObj
            [(''scores'', JArr (map (\<lambda>i. JNum (Finite (dimension_score (draws g (consumed g + 1 + i))))) [0..<9])),
             (''overall'', JStr (toFixed (overall_value (draws g (consumed g))) 1)),
             (''reason'', JStr ''Automated local appraisal complete'')]\<rparr>,
         g\<lparr>consumed := consumed g + 10\<rparr>) \<and>
      status (fst (handler req_body g)) = 200 \<and>
      json_field (json (fst (handler req_body g))) ''scores'' \<noteq> None \<and>
      json_field (json (fst (handler req_body g))) ''overall'' \<noteq> None \<and>
      json_field (json (fst (handler req_body g))) ''error'' = None) \<and>
   \<not> ToBoolean JUndefined \<and> \<not> ToBoolean JNull \<and> \<not> ToBoolean (JStr []) \<and>
   \<not> ToBoolean (JNum (Finite 0)) \<and> \<not> ToBoolean (JBool False) \<and> \<not> ToBoolean (JNum NaN) \<and>
   (q \<noteq> 0 \<longrightarrow> ToBoolean (JNum (Finite q))) \<and>
   ToBoolean (JObj kvs) \<and> ToBoolean (JArr xs) \<and> ToBoolean (JBool True) \<and>
   (s \<noteq> [] \<longrightarrow> ToBoolean (JStr s)) \<and> ToBoolean (JStr '' '')"
proof -
  have rejects: "\<not> ToBoolean (get_property req_body ''nftContent'') \<longrightarrow>
      handler req_body g =
        (\<lparr>status = 400, json = JObj [(''error'', JStr ''NFT content required'')]\<rparr>, g)"
    by (simp add: handler_rejects)
  have accepts: "ToBoolean (get_property req_body ''nftContent'') \<longrightarrow>
      handler req_body g =
        (\<lparr>status = 200,
          json = JObj
            [(''scores'', JArr (map (\<lambda>i. JNum (Finite (dimension_score (draws g (consumed g + 1 + i))))) [0..<9])),
             (''overall'', JStr (toFixed (overall_value (draws g (consumed g))) 1)),
             (''reason'', JStr ''Automated local appraisal complete'')]\<rparr>,
         g\<lparr>consumed := consumed g + 10\<rparr>) \<and>
      status (fst (handler req_body g)) = 200 \<and>
      json_field (json (fst (handler req_body g))) ''scores'' \<noteq> None \<and>
      json_field (json (fst (handler req_body g))) ''overall'' \<noteq> None \<and>
      json_field (json (fst (handler req_body g))) ''error'' = None"
    by (simp add: handler_accepts del: upt_Suc)
  have falsy: "\<not> ToBoolean JUndefined \<and> \<not> ToBoolean JNull \<and> \<not> ToBoolean (JStr []) \<and>
      \<not> ToBoolean (JNum (Finite 0)) \<and> \<not> ToBoolean (JBool False) \<and> \<not> ToBoolean (JNum NaN)"
    by simp
  have truthy: "(q \<noteq> 0 \<longrightarrow> ToBoolean (JNum (Finite q))) \<and>
      ToBoolean (JObj kvs) \<and> ToBoolean (JArr xs) \<and> ToBoolean (JBool True) \<and>
      (s \<noteq> [] \<longrightarrow> ToBoolean (JStr s)) \<and> ToBoolean (JStr '' '')"
    by simp
  from rejects accepts falsy truthy show ?thesis by blast
qed

theorem validation_is_truthiness_witness:
  "handler [''nftContent'' \<mapsto> JNum (Finite 0)] (replay [] 0) =
     (\<lparr>status = 400, json = JObj [(''error'', JStr ''NFT content required'')]\<rparr>, replay [] 0) \<and>
   status (fst (handler [''nftContent'' \<mapsto> JNum (Finite 5)] (replay [] 0))) = 200 \<and>
   status (fst (handler [''nftContent'' \<mapsto> JArr [JNull]] (replay [] 0))) = 200 \<and>
   status (fst (handler [''nftContent'' \<mapsto> JObj []] (replay [] 0))) = 200 \<and>
   status (fst (handler [''nftContent'' \<mapsto> JStr '' ''] (replay [] 0))) = 200 \<and>
   handler [''nftContent'' \<mapsto> JNum (Finite 5)] (replay [] 0) =
     (\<lparr>status = 200,
       json = JObj [(''scores'', JArr (replicate 9 (JNum (Finite 7)))),
                    (''overall'', JStr ''7.0''),
                    (''reason'', JStr ''Automated local appraisal complete'')]\<rparr>,
      (replay [] 0)\<lparr>consumed := 10\<rparr>) \<and>
   handler [''nftContent'' \<mapsto> JObj []] (replay [] 0) =
     (\<lparr>status = 200,
       json = JObj [(''scores'', JArr (replicate 9 (JNum (Finite 7)))),
                    (''overall'', JStr ''7.0''),
                    (''reason'', JStr ''Automated local appraisal complete'')]\<rparr>,
      (replay [] 0)\<lparr>consumed := 10\<rparr>)"
proof -
  note a = validation_is_truthiness [of "[''nftContent'' \<mapsto> JNum (Finite 0)]" "replay [] 0" 5 "[]" "[]" "'' ''"]
  note b = validation_is_truthiness [of "[''nftContent'' \<mapsto> JNum (Finite 5)]" "replay [] 0" 5 "[]" "[]" "'' ''"]
  note c = validation_is_truthiness [of "[''nftContent'' \<mapsto> JArr [JNull]]" "replay [] 0" 5 "[]" "[]" "'' ''"]
  note d = validation_is_truthiness [of "[''nftContent'' \<mapsto> JObj []]" "replay [] 0" 5 "[]" "[]" "'' ''"]
  note e = validation_is_truthiness [of "[''nftContent'' \<mapsto> JStr '' '']" "replay [] 0" 5 "[]" "[]" "'' ''"]
  have f: "\<not> ToBoolean (get_property [''nftContent'' \<mapsto> JNum (Finite 0)] ''nftContent'')"
    and t5: "ToBoolean (get_property [''nftContent'' \<mapsto> JNum (Finite 5)] ''nftContent'')"
    and ta: "ToBoolean (get_property [''nftContent'' \<mapsto> JArr [JNull]] ''nftContent'')"
    and to: "ToBoolean (get_property [''nftContent'' \<mapsto> JObj []] ''nftContent'')"
    and ts: "ToBoolean (get_property [''nftContent'' \<mapsto> JStr '' ''] ''nftContent'')"
    by simp_all
  from a f have 1: "handler [''nftContent'' \<mapsto> JNum (Finite 0)] (replay [] 0) =
     (\<lparr>status = 400, json = JObj [(''error'', JStr ''NFT content required'')]\<rparr>, replay [] 0)"
    by blast
  from b t5 have 2: "status (fst (handler [''nftContent'' \<mapsto> JNum (Finite 5)] (replay [] 0))) = 200"
    by blast
  from c ta have 3: "status (fst (handler [''nftContent'' \<mapsto> JArr [JNull]] (replay [] 0))) = 200"
    by blast
  from d to have 4: "status (fst (handler [''nftContent'' \<mapsto> JObj []] (replay [] 0))) = 200"
    by blast
  from e ts have 5: "status (fst (handler [''nftContent'' \<mapsto> JStr '' ''] (replay [] 0))) = 200"
    by blast
  from b t5 have "handler [''nftContent'' \<mapsto> JNum (Finite 5)] (replay [] 0) =
     (\<lparr>status = 200,
      json = JObj
        [(''scores'', JArr (map (\<lambda>i. JNum (Finite (dimension_score
            (draws (replay [] 0) (consumed (replay [] 0) + 1 + i))))) [0..<9])),
         (''overall'', JStr (toFixed (overall_value (draws (replay [] 0) (consumed (replay [] 0)))) 1)),
         (''reason'', JStr ''Automated local appraisal complete'')]\<rparr>,
    (replay [] 0)\<lparr>consumed := consumed (replay [] 0) + 10\<rparr>)"
    by blast
  then have 6: "handler [''nftContent'' \<mapsto> JNum (Finite 5)] (replay [] 0) =
     (\<lparr>status = 200,
       json = JObj [(''scores'', JArr (replicate 9 (JNum (Finite 7)))),
                    (''overall'', JStr ''7.0''),
                    (''reason'', JStr ''Automated local appraisal complete'')]\<rparr>,
      (replay [] 0)\<lparr>consumed := 10\<rparr>)"
    by (simp only: appraisal_all_0)
  from d to have "handler [''nftContent'' \<mapsto> JObj []] (replay [] 0) =
     (\<lparr>status = 200,
      json = JObj
        [(''scores'', JArr (map (\<lambda>i. JNum (Finite (dimension_score
            (draws (replay [] 0) (consumed (replay [] 0) + 1 + i))))) [0..<9])),
         (''overall'', JStr (toFixed (overall_value (draws (replay [] 0) (consumed (replay [] 0)))) 1)),
         (''reason'', JStr ''Automated local appraisal complete'')]\<rparr>,
    (replay [] 0)\<lparr>consumed := consumed (replay [] 0) + 10\<rparr>)"
    by blast
  then have 7: "handler [''nftContent'' \<mapsto> JObj []] (replay [] 0) =
     (\<lparr>status = 200,
       json = JObj [(''scores'', JArr (replicate 9 (JNum (Finite 7)))),
                    (''overall'', JStr ''7.0''),
                    (''reason'', JStr ''Automated local appraisal complete'')]\<rparr>,
      (replay [] 0)\<lparr>consumed := 10\<rparr>)"
    by (simp only: appraisal_all_0)
  from 1 2 3 4 5 6 7 show ?thesis by blast
qed

end
